theory Spec2Isabelle
  imports Main
begin

section \<open>Values of the Python program\<close>

text \<open>
  Everything the controller reads off the wire or the bus has gone through
  \<^verbatim>\<open>json.loads\<close>, so the values it handles are JSON values. Numbers are
  integers (floating point is not modelled). An object is an association list whose
  first binding of a key is the dictionary's value for it.
\<close>

datatype json =
    JNull
  | JBool bool
  | JInt int
  | JStr string
  | JArr "json list"
  | JObj "(string \<times> json) list"

type_synonym dict = "(string \<times> json) list"

text \<open>
  Exceptions carry the text \<^verbatim>\<open>str(e)\<close> gives. Texts produced by the interpreter or
  a library follow CPython's wording; no result below depends on that wording.
\<close>

datatype exn =
    Exception string
  | TypeError string
  | AttributeError string
  | KeyError string
  | IndexError string
  | InvalidStateError string
  | ConnectionClosed string
  | CancelledError

fun str_exn :: "exn \<Rightarrow> string" where
  "str_exn (Exception m) = m"
| "str_exn (TypeError m) = m"
| "str_exn (AttributeError m) = m"
| "str_exn (KeyError m) = m"
| "str_exn (IndexError m) = m"
| "str_exn (InvalidStateError m) = m"
| "str_exn (ConnectionClosed m) = m"
| "str_exn CancelledError = []"

text \<open>\<^verbatim>\<open>except Exception\<close> does not catch \<^verbatim>\<open>asyncio.CancelledError\<close>.\<close>

fun is_Exception :: "exn \<Rightarrow> bool" where
  "is_Exception CancelledError = False"
| "is_Exception e = True"

text \<open>
  An f-string whose placeholder is a JSON value is kept as its literal prefix and the
  value: \<open>Fmt p v\<close> is \<^verbatim>\<open>f"{p}{v}"\<close>.
\<close>

datatype fstring = Lit string | Fmt string json

text \<open>A word between single quotes, as the interpreter's messages have it.\<close>

definition sq :: "string \<Rightarrow> string" where
  "sq s = CHR 0x27 # s @ [CHR 0x27]"

fun py_type :: "json \<Rightarrow> string" where
  "py_type JNull = ''NoneType''"
| "py_type (JBool b) = ''bool''"
| "py_type (JInt n) = ''int''"
| "py_type (JStr s) = ''str''"
| "py_type (JArr xs) = ''list''"
| "py_type (JObj d) = ''dict''"

fun truthy :: "json \<Rightarrow> bool" where
  "truthy JNull = False"
| "truthy (JBool b) = b"
| "truthy (JInt n) = (n \<noteq> 0)"
| "truthy (JStr s) = (s \<noteq> [])"
| "truthy (JArr xs) = (xs \<noteq> [])"
| "truthy (JObj d) = (d \<noteq> [])"

definition dict_has :: "dict \<Rightarrow> string \<Rightarrow> bool" where
  "dict_has d k = (map_of d k \<noteq> None)"

definition dict_get :: "dict \<Rightarrow> string \<Rightarrow> json \<Rightarrow> json" where
  "dict_get d k dflt = (case map_of d k of None \<Rightarrow> dflt | Some v \<Rightarrow> v)"

fun dict_set :: "dict \<Rightarrow> string \<Rightarrow> json \<Rightarrow> dict" where
  "dict_set [] k v = [(k, v)]"
| "dict_set ((k', v') # d) k v = (if k' = k then (k, v) # d else (k', v') # dict_set d k v)"

text \<open>\<^verbatim>\<open>x.get(k, dflt)\<close> on an arbitrary value: only a dict has the method.\<close>

fun py_get :: "json \<Rightarrow> string \<Rightarrow> json \<Rightarrow> exn + json" where
  "py_get (JObj d) k dflt = Inr (dict_get d k dflt)"
| "py_get x k dflt = Inl (AttributeError (sq (py_type x) @ '' object has no attribute '' @ sq ''get''))"

fun is_substring :: "string \<Rightarrow> string \<Rightarrow> bool" where
  "is_substring p [] = (p = [])"
| "is_substring p (c # cs) = (take (length p) (c # cs) = p \<or> is_substring p cs)"

text \<open>\<^verbatim>\<open>k in x\<close> for a string literal \<open>k\<close>.\<close>

fun py_in :: "string \<Rightarrow> json \<Rightarrow> exn + bool" where
  "py_in k (JObj d) = Inr (dict_has d k)"
| "py_in k (JArr xs) = Inr (JStr k \<in> set xs)"
| "py_in k (JStr s) = Inr (is_substring k s)"
| "py_in k x = Inl (TypeError (''argument of type '' @ sq (py_type x) @ '' is not iterable''))"

text \<open>\<^verbatim>\<open>x[k]\<close> for a string literal \<open>k\<close>.\<close>

fun py_index :: "json \<Rightarrow> string \<Rightarrow> exn + json" where
  "py_index (JObj d) k =
     (case map_of d k of None \<Rightarrow> Inl (KeyError (sq k)) | Some v \<Rightarrow> Inr v)"
| "py_index (JArr xs) k = Inl (TypeError ''list indices must be integers or slices, not str'')"
| "py_index (JStr s) k = Inl (TypeError ''string indices must be integers'')"
| "py_index x k = Inl (TypeError (sq (py_type x) @ '' object is not subscriptable''))"

text \<open>
  The keys of \<^verbatim>\<open>pending_commands\<close> are the integers \<^verbatim>\<open>send_command\<close> stored.
  Looking a JSON value up in it hashes the value: a list or dict is unhashable, an
  integer and a boolean (\<^verbatim>\<open>True == 1\<close>) can equal a key, a string and
  \<^verbatim>\<open>None\<close> cannot.
\<close>

fun py_key :: "json \<Rightarrow> exn + int option" where
  "py_key (JInt n) = Inr (Some n)"
| "py_key (JBool b) = Inr (Some (if b then 1 else 0))"
| "py_key (JStr s) = Inr None"
| "py_key JNull = Inr None"
| "py_key (JArr xs) = Inl (TypeError (''unhashable type: '' @ sq ''list''))"
| "py_key (JObj d) = Inl (TypeError (''unhashable type: '' @ sq ''dict''))"

text \<open>Iterating a value with \<^verbatim>\<open>for\<close>.\<close>

fun py_iter :: "json \<Rightarrow> exn + json list" where
  "py_iter (JStr s) = Inr (map (\<lambda>c. JStr [c]) s)"
| "py_iter (JArr xs) = Inr xs"
| "py_iter (JObj d) = Inr (map (\<lambda>kv. JStr (fst kv)) d)"
| "py_iter x = Inl (TypeError (sq (py_type x) @ '' object is not iterable''))"

text \<open>\<^verbatim>\<open>str(n)\<close> for an integer.\<close>

function dec_nat :: "nat \<Rightarrow> string" where
  "dec_nat n = (if n < 10 then [char_of (48 + n)] else dec_nat (n div 10) @ [char_of (48 + n mod 10)])"
  by pat_completeness auto
termination
  by (relation "measure (\<lambda>n. n)") auto

definition str_int :: "int \<Rightarrow> string" where
  "str_int i = (if i < 0 then CHR ''-'' # dec_nat (nat (- i)) else dec_nat (nat i))"

section \<open>The controller's state\<close>

text \<open>
  The websocket object remembers the address it was opened to; once the peer is gone
  it is closed, with the reason the library reports. The attribute
  \<^verbatim>\<open>ws_connection\<close> is \<^verbatim>\<open>None\<close> until \<^verbatim>\<open>connect_to_browser\<close> succeeds and is
  never reset.
\<close>

datatype websocket = WebSocket (ws_address: json) (ws_closed: "string option")

text \<open>An \<^verbatim>\<open>asyncio.Future\<close>.\<close>

datatype future = FPending | FDone json | FCancelled

text \<open>
  \<^verbatim>\<open>pending_commands\<close> maps a message id to a future object; the futures live in a
  heap (\<open>futures\<close>), so that the table and the suspended caller share one object.
  \<open>ws_sent\<close>, \<open>redis_published\<close> and \<open>stdout\<close> record what has been
  written to the websocket, published on the bus and printed.
\<close>

record controller =
  ws_connection :: "websocket option"
  message_id :: int
  pending_commands :: "int \<rightharpoonup> nat"
  futures :: "future list"
  ws_sent :: "json list"
  redis_published :: "(fstring \<times> json) list"
  stdout :: "fstring list"

definition init :: controller where
  "init = \<lparr> ws_connection = None, message_id = 0, pending_commands = Map.empty,
            futures = [], ws_sent = [], redis_published = [], stdout = [] \<rparr>"

definition py_print :: "controller \<Rightarrow> fstring \<Rightarrow> controller" where
  "py_print st line = st\<lparr> stdout := stdout st @ [line] \<rparr>"

definition publish :: "controller \<Rightarrow> fstring \<Rightarrow> json \<Rightarrow> controller" where
  "publish st channel payload = st\<lparr> redis_published := redis_published st @ [(channel, payload)] \<rparr>"

text \<open>\<^verbatim>\<open>future.set_result(data)\<close> raises unless the future is still pending.\<close>

definition set_result :: "controller \<Rightarrow> nat \<Rightarrow> json \<Rightarrow> exn + controller" where
  "set_result st f data =
     (if f < length (futures st) \<and> futures st ! f = FPending
      then Inr (st\<lparr> futures := (futures st)[f := FDone data] \<rparr>)
      else Inl (InvalidStateError ''invalid state''))"

section \<open>The protocol client: \<^verbatim>\<open>send_command\<close>\<close>

text \<open>
  What a suspended \<^verbatim>\<open>send_command\<close> holds in its local variables.
\<close>

record call =
  call_id :: int
  call_method :: string
  call_future :: nat

text \<open>
  \<^verbatim>\<open>send_command\<close> up to its first suspension: the connection check, the counter,
  the future and its registration. Nothing else runs in between (there is no
  \<^verbatim>\<open>await\<close>).
\<close>

definition register :: "controller \<Rightarrow> string \<Rightarrow> dict option \<Rightarrow> exn + (controller \<times> call \<times> json)" where
  "register st method params =
     (case ws_connection st of
        None \<Rightarrow> Inl (Exception ''Not connected to browser'')
      | Some ws \<Rightarrow>
          let mid = message_id st + 1;
              message = JObj [(''id'', JInt mid), (''method'', JStr method),
                              (''params'', JObj (case params of None \<Rightarrow> [] | Some p \<Rightarrow> p))];
              fut = length (futures st)
          in Inr (st\<lparr> message_id := mid,
                       futures := futures st @ [FPending],
                       pending_commands := (pending_commands st)(mid \<mapsto> fut) \<rparr>,
                  \<lparr> call_id = mid, call_method = method, call_future = fut \<rparr>,
                  message))"

text \<open>\<^verbatim>\<open>await self.ws_connection.send(json.dumps(message))\<close>: fails on a closed socket.\<close>

definition ws_send :: "controller \<Rightarrow> json \<Rightarrow> exn + controller" where
  "ws_send st message =
     (case ws_connection st of
        None \<Rightarrow> Inl (AttributeError (sq ''NoneType'' @ '' object has no attribute '' @ sq ''send''))
      | Some ws \<Rightarrow>
          (case ws_closed ws of
             Some reason \<Rightarrow> Inl (ConnectionClosed reason)
           | None \<Rightarrow> Inr (st\<lparr> ws_sent := ws_sent st @ [message] \<rparr>)))"

text \<open>
  The call resumes from \<^verbatim>\<open>asyncio.wait_for\<close>: with the result if the future is done;
  otherwise the 30 seconds have passed, \<^verbatim>\<open>wait_for\<close> has cancelled the future, and
  the handler deletes the table entry and raises (\<^verbatim>\<open>del\<close> raises \<^verbatim>\<open>KeyError\<close> if the
  entry is gone). The future of a call is the one \<open>register\<close> appended to the heap, so
  its index is in range (\<open>issued_future_bound\<close> below).
\<close>

definition resume :: "controller \<Rightarrow> call \<Rightarrow> controller \<times> (exn + json)" where
  "resume st c =
     (case futures st ! call_future c of
        FDone data \<Rightarrow> (st, Inr data)
      | FCancelled \<Rightarrow> (st, Inl CancelledError)
      | FPending \<Rightarrow>
          let st1 = st\<lparr> futures := (futures st)[call_future c := FCancelled] \<rparr>
          in (case pending_commands st1 (call_id c) of
                None \<Rightarrow> (st1, Inl (KeyError (str_int (call_id c))))
              | Some f \<Rightarrow>
                  (st1\<lparr> pending_commands := (pending_commands st1)(call_id c := None) \<rparr>,
                   Inl (Exception (''Command '' @ call_method c @ '' timed out'')))))"

section \<open>The read loop: \<^verbatim>\<open>handle_messages\<close> and \<^verbatim>\<open>handle_event\<close>\<close>

text \<open>The first argument is what \<^verbatim>\<open>datetime.utcnow().isoformat()\<close> returns.\<close>

definition allow_list :: "json list" where
  "allow_list = [JStr ''Page.loadEventFired'', JStr ''Page.frameNavigated'',
                 JStr ''Network.requestWillBeSent'']"

definition handle_event :: "string \<Rightarrow> controller \<Rightarrow> json \<Rightarrow> exn + controller" where
  "handle_event now st event =
     (case py_get event ''method'' (JStr []) of
        Inl e \<Rightarrow> Inl e
      | Inr method \<Rightarrow>
          (case py_get event ''params'' (JObj []) of
             Inl e \<Rightarrow> Inl e
           | Inr params \<Rightarrow>
               if method \<in> set allow_list
               then Inr (publish st (Lit ''browser:events'')
                           (JObj [(''type'', method), (''params'', params),
                                  (''timestamp'', JStr now)]))
               else Inr st))"

text \<open>The body of the \<^verbatim>\<open>try\<close> after \<^verbatim>\<open>json.loads\<close>.\<close>

definition on_message :: "string \<Rightarrow> controller \<Rightarrow> json \<Rightarrow> exn + controller" where
  "on_message now st data =
     (case py_in ''id'' data of
        Inl e \<Rightarrow> Inl e
      | Inr True \<Rightarrow>
          (case py_index data ''id'' of
             Inl e \<Rightarrow> Inl e
           | Inr mid \<Rightarrow>
               (case py_key mid of
                  Inl e \<Rightarrow> Inl e
                | Inr None \<Rightarrow> Inr st
                | Inr (Some k) \<Rightarrow>
                    (case pending_commands st k of
                       None \<Rightarrow> Inr st
                     | Some f \<Rightarrow>
                         (case set_result st f data of
                            Inl e \<Rightarrow> Inl e
                          | Inr st1 \<Rightarrow>
                              Inr (st1\<lparr> pending_commands := (pending_commands st1)(k := None) \<rparr>)))))
      | Inr False \<Rightarrow>
          (case py_in ''method'' data of
             Inl e \<Rightarrow> Inl e
           | Inr True \<Rightarrow> handle_event now st data
           | Inr False \<Rightarrow> Inr st))"

text \<open>
  What \<^verbatim>\<open>recv\<close> followed by \<^verbatim>\<open>json.loads\<close> yields in one iteration: a decoded
  frame, a frame that does not decode (with the decoder's message), or the loss of
  the connection (with the library's reason).
\<close>

datatype recv = Frame json | Undecodable string | Closed string

text \<open>
  One iteration of \<^verbatim>\<open>while True\<close>; the boolean says whether the loop goes on.
\<close>

definition handle_message :: "string \<Rightarrow> controller \<Rightarrow> recv \<Rightarrow> controller \<times> bool" where
  "handle_message now st r =
     (case ws_connection st of
        None \<Rightarrow>
          (py_print st (Lit (''Error handling message: '' @ sq ''NoneType''
                             @ '' object has no attribute '' @ sq ''recv'')), True)
      | Some ws \<Rightarrow>
          (case ws_closed ws of
             Some reason \<Rightarrow> (py_print st (Lit ''Browser connection closed''), False)
           | None \<Rightarrow>
               (case r of
                  Closed reason \<Rightarrow>
                    (py_print (st\<lparr> ws_connection := Some (WebSocket (ws_address ws) (Some reason)) \<rparr>)
                       (Lit ''Browser connection closed''), False)
                | Undecodable m \<Rightarrow> (py_print st (Lit (''Error handling message: '' @ m)), True)
                | Frame data \<Rightarrow>
                    (case on_message now st data of
                       Inl e \<Rightarrow> (py_print st (Lit (''Error handling message: '' @ str_exn e)), True)
                     | Inr st1 \<Rightarrow> (st1, True)))))"

text \<open>The loop over what arrives, each arrival with the clock reading at its handling.\<close>

fun handle_messages :: "controller \<Rightarrow> (string \<times> recv) list \<Rightarrow> controller" where
  "handle_messages st [] = st"
| "handle_messages st ((now, r) # rs) =
     (case handle_message now st r of
        (st1, True) \<Rightarrow> handle_messages st1 rs
      | (st1, False) \<Rightarrow> st1)"

section \<open>Connection setup: \<^verbatim>\<open>connect_to_browser\<close>\<close>

text \<open>
  \<^verbatim>\<open>next((t for t in targets if t.get("type") == "page"), targets[0])\<close>: the
  generator is advanced until a target of type page shows up; an element that is not a
  dict makes \<^verbatim>\<open>t.get\<close> raise.
\<close>

fun first_page :: "json list \<Rightarrow> json \<Rightarrow> exn + json" where
  "first_page [] dflt = Inr dflt"
| "first_page (t # ts) dflt =
     (case py_get t ''type'' JNull of
        Inl e \<Rightarrow> Inl e
      | Inr ty \<Rightarrow> if ty = JStr ''page'' then Inr t else first_page ts dflt)"

text \<open>
  Both arguments of \<^verbatim>\<open>next\<close> are evaluated before it runs: the generator needs an
  iterable, and \<^verbatim>\<open>targets[0]\<close> needs a sequence.
\<close>

fun select_target :: "json \<Rightarrow> exn + json" where
  "select_target (JArr ts) =
     (case ts of
        [] \<Rightarrow> Inl (IndexError ''list index out of range'')
      | t0 # _ \<Rightarrow> first_page ts t0)"
| "select_target (JStr s) =
     (case s of
        [] \<Rightarrow> Inl (IndexError ''string index out of range'')
      | c # _ \<Rightarrow> first_page (map (\<lambda>c. JStr [c]) s) (JStr [c]))"
| "select_target (JObj d) = Inl (KeyError ''0'')"
| "select_target x = Inl (TypeError (sq (py_type x) @ '' object is not iterable''))"

definition connect_failed :: "controller \<Rightarrow> exn \<Rightarrow> controller \<times> bool" where
  "connect_failed st e = (py_print st (Lit (''Failed to connect to browser: '' @ str_exn e)), False)"

text \<open>
  The first argument is the outcome of the HTTP request to the discovery endpoint (an
  exception, or the decoded body); the second is \<^verbatim>\<open>websockets.connect\<close>, which
  either raises or opens a socket to the address.
\<close>

definition connect_to_browser ::
  "(exn + json) \<Rightarrow> (json \<Rightarrow> exn option) \<Rightarrow> controller \<Rightarrow> controller \<times> bool" where
  "connect_to_browser discovery dial st =
     (case discovery of
        Inl e \<Rightarrow> connect_failed st e
      | Inr targets \<Rightarrow>
          if \<not> truthy targets then (py_print st (Lit ''No browser targets found''), False)
          else
            (case select_target targets of
               Inl e \<Rightarrow> connect_failed st e
             | Inr page_target \<Rightarrow>
                 (case py_get page_target ''webSocketDebuggerUrl'' JNull of
                    Inl e \<Rightarrow> connect_failed st e
                  | Inr ws_url \<Rightarrow>
                      if \<not> truthy ws_url then (py_print st (Lit ''No WebSocket URL found''), False)
                      else
                        (case dial ws_url of
                           Some e \<Rightarrow> connect_failed st e
                         | None \<Rightarrow>
                             (py_print (st\<lparr> ws_connection := Some (WebSocket ws_url None) \<rparr>)
                                (Fmt ''Connected to browser: '' ws_url), True)))))"

section \<open>A call from start to end\<close>

text \<open>
  A caller of \<^verbatim>\<open>send_command\<close> that nothing else interleaves with except the read
  loop (the dispatcher awaits each command before it takes the next). The browser is
  a function from the frame sent to what the read loop receives while the call is
  suspended; when that has been handled the call resumes, with its result or by
  timeout.
\<close>

type_synonym browser = "json \<Rightarrow> (string \<times> recv) list"

definition send_command ::
  "browser \<Rightarrow> controller \<Rightarrow> string \<Rightarrow> dict option \<Rightarrow> controller \<times> (exn + json)" where
  "send_command env st method params =
     (case register st method params of
        Inl e \<Rightarrow> (st, Inl e)
      | Inr (st1, c, message) \<Rightarrow>
          (case ws_send st1 message of
             Inl e \<Rightarrow> (st1, Inl e)
           | Inr st2 \<Rightarrow> resume (handle_messages st2 (env message)) c))"

section \<open>Derived operations\<close>

definition navigate :: "browser \<Rightarrow> controller \<Rightarrow> json \<Rightarrow> controller \<times> (exn + json)" where
  "navigate env st url = send_command env st ''Page.navigate'' (Some [(''url'', url)])"

definition screenshot :: "browser \<Rightarrow> controller \<Rightarrow> controller \<times> (exn + json)" where
  "screenshot env st =
     (case send_command env st ''Page.captureScreenshot''
             (Some [(''format'', JStr ''png''), (''quality'', JInt 80)]) of
        (st1, Inl e) \<Rightarrow> (st1, Inl e)
      | (st1, Inr result) \<Rightarrow>
          (st1, case py_get result ''result'' (JObj []) of
                  Inl e \<Rightarrow> Inl e
                | Inr r \<Rightarrow> py_get r ''data'' (JStr [])))"

definition mouse_event :: "string \<Rightarrow> json \<Rightarrow> json \<Rightarrow> dict" where
  "mouse_event ty x y =
     [(''type'', JStr ty), (''x'', x), (''y'', y), (''button'', JStr ''left''),
      (''clickCount'', JInt 1)]"

definition click :: "browser \<Rightarrow> controller \<Rightarrow> json \<Rightarrow> json \<Rightarrow> controller \<times> (exn + unit)" where
  "click env st x y =
     (case send_command env st ''Input.dispatchMouseEvent'' (Some (mouse_event ''mousePressed'' x y)) of
        (st1, Inl e) \<Rightarrow> (st1, Inl e)
      | (st1, Inr r1) \<Rightarrow>
          (case send_command env st1 ''Input.dispatchMouseEvent''
                  (Some (mouse_event ''mouseReleased'' x y)) of
             (st2, Inl e) \<Rightarrow> (st2, Inl e)
           | (st2, Inr r2) \<Rightarrow> (st2, Inr ())))"

definition key_event :: "string \<Rightarrow> json \<Rightarrow> dict" where
  "key_event ty char = [(''type'', JStr ty), (''text'', char)]"

text \<open>The body of \<^verbatim>\<open>for char in text\<close>; the sleep between characters has no effect here.\<close>

fun type_chars :: "browser \<Rightarrow> controller \<Rightarrow> json list \<Rightarrow> controller \<times> (exn + unit)" where
  "type_chars env st [] = (st, Inr ())"
| "type_chars env st (char # chars) =
     (case send_command env st ''Input.dispatchKeyEvent'' (Some (key_event ''keyDown'' char)) of
        (st1, Inl e) \<Rightarrow> (st1, Inl e)
      | (st1, Inr r1) \<Rightarrow>
          (case send_command env st1 ''Input.dispatchKeyEvent'' (Some (key_event ''keyUp'' char)) of
             (st2, Inl e) \<Rightarrow> (st2, Inl e)
           | (st2, Inr r2) \<Rightarrow> type_chars env st2 chars))"

definition type_text :: "browser \<Rightarrow> controller \<Rightarrow> json \<Rightarrow> controller \<times> (exn + unit)" where
  "type_text env st text =
     (case py_iter text of
        Inl e \<Rightarrow> (st, Inl e)
      | Inr chars \<Rightarrow> type_chars env st chars)"

definition evaluate :: "browser \<Rightarrow> controller \<Rightarrow> json \<Rightarrow> controller \<times> (exn + json)" where
  "evaluate env st expression =
     (case send_command env st ''Runtime.evaluate''
             (Some [(''expression'', expression), (''returnByValue'', JBool True)]) of
        (st1, Inl e) \<Rightarrow> (st1, Inl e)
      | (st1, Inr result) \<Rightarrow>
          (st1, case py_get result ''result'' (JObj []) of
                  Inl e \<Rightarrow> Inl e
                | Inr r \<Rightarrow>
                    (case py_get r ''result'' (JObj []) of
                       Inl e \<Rightarrow> Inl e
                     | Inr r' \<Rightarrow> py_get r' ''value'' JNull)))"

section \<open>The command dispatcher: \<^verbatim>\<open>process_command\<close>\<close>

text \<open>
  The \<^verbatim>\<open>if\<close>/\<^verbatim>\<open>elif\<close> chain inside \<^verbatim>\<open>try\<close>: the new state and either the
  exception raised or the result dict as the branch leaves it. There is no
  \<^verbatim>\<open>else\<close> branch.
\<close>

definition run_action ::
  "browser \<Rightarrow> controller \<Rightarrow> dict \<Rightarrow> json \<Rightarrow> dict \<Rightarrow> controller \<times> (exn + dict)" where
  "run_action env st command action result =
     (if action = JStr ''navigate'' then
        (case navigate env st (dict_get command ''url'' JNull) of
           (st1, Inl e) \<Rightarrow> (st1, Inl e)
         | (st1, Inr r) \<Rightarrow> (st1, Inr (dict_set result ''success'' (JBool True))))
      else if action = JStr ''screenshot'' then
        (case screenshot env st of
           (st1, Inl e) \<Rightarrow> (st1, Inl e)
         | (st1, Inr data) \<Rightarrow>
             (st1, Inr (dict_set (dict_set result ''success'' (JBool True)) ''data'' data)))
      else if action = JStr ''click'' then
        (case click env st (dict_get command ''x'' (JInt 0)) (dict_get command ''y'' (JInt 0)) of
           (st1, Inl e) \<Rightarrow> (st1, Inl e)
         | (st1, Inr u) \<Rightarrow> (st1, Inr (dict_set result ''success'' (JBool True))))
      else if action = JStr ''type'' then
        (case type_text env st (dict_get command ''text'' (JStr [])) of
           (st1, Inl e) \<Rightarrow> (st1, Inl e)
         | (st1, Inr u) \<Rightarrow> (st1, Inr (dict_set result ''success'' (JBool True))))
      else if action = JStr ''evaluate'' then
        (case evaluate env st (dict_get command ''expression'' (JStr [])) of
           (st1, Inl e) \<Rightarrow> (st1, Inl e)
         | (st1, Inr val) \<Rightarrow>
             (st1, Inr (dict_set (dict_set result ''success'' (JBool True)) ''value'' val)))
      else if action = JStr ''get_url'' then
        (case evaluate env st (JStr ''window.location.href'') of
           (st1, Inl e) \<Rightarrow> (st1, Inl e)
         | (st1, Inr url) \<Rightarrow>
             (st1, Inr (dict_set (dict_set result ''success'' (JBool True)) ''url'' url)))
      else (st, Inr result))"

text \<open>
  The second component is the exception that leaves \<^verbatim>\<open>process_command\<close>, if any:
  \<^verbatim>\<open>command.get\<close> is outside the \<^verbatim>\<open>try\<close>, and \<^verbatim>\<open>except Exception\<close> lets a
  cancellation through.
\<close>

definition process_command :: "browser \<Rightarrow> controller \<Rightarrow> json \<Rightarrow> controller \<times> exn option" where
  "process_command env st command =
     (case command of
        JObj cmd \<Rightarrow>
          let action = dict_get cmd ''action'' JNull;
              session_id = dict_get cmd ''session_id'' JNull;
              result = [(''session_id'', session_id), (''success'', JBool False)]
          in (case run_action env st cmd action result of
                (st1, Inr result1) \<Rightarrow>
                  (publish st1 (Fmt ''browser:result:'' session_id) (JObj result1), None)
              | (st1, Inl e) \<Rightarrow>
                  if is_Exception e
                  then (publish st1 (Fmt ''browser:result:'' session_id)
                          (JObj (dict_set result ''error'' (JStr (str_exn e)))), None)
                  else (st1, Some e))
      | _ \<Rightarrow> (st, Some (AttributeError (sq (py_type command) @ '' object has no attribute '' @ sq ''get''))))"

definition recognized :: "json list" where
  "recognized = [JStr ''navigate'', JStr ''screenshot'', JStr ''click'', JStr ''type'',
                 JStr ''evaluate'', JStr ''get_url'']"

section \<open>Concurrent callers of one controller\<close>

text \<open>
  Coroutines run one at a time and change hands only at an \<^verbatim>\<open>await\<close>. A session is
  the controller together with the calls suspended in \<^verbatim>\<open>wait_for\<close>; \<open>issued\<close>
  and \<open>outcomes\<close> remember every call that registered and how each call ended.
  \<open>reading\<close> says that \<^verbatim>\<open>handle_messages\<close> has not left its loop.
\<close>

record session =
  ctl :: controller
  waiting :: "call list"
  issued :: "call list"
  outcomes :: "(call \<times> (exn + json)) list"
  reading :: bool

text \<open>
  What can happen next: some coroutine calls \<^verbatim>\<open>send_command\<close>; the read loop gets
  its next \<^verbatim>\<open>recv\<close>; the \<open>i\<close>-th suspended call is resumed.
\<close>

datatype action = Call string "dict option" | Arrive string recv | Resume nat

definition drop_nth :: "nat \<Rightarrow> 'a list \<Rightarrow> 'a list" where
  "drop_nth i xs = take i xs @ drop (Suc i) xs"

fun act :: "session \<Rightarrow> action \<Rightarrow> session" where
  "act s (Call method params) =
     (case register (ctl s) method params of
        Inl e \<Rightarrow> s
      | Inr (st1, c, message) \<Rightarrow>
          (case ws_send st1 message of
             Inl e \<Rightarrow> s\<lparr> ctl := st1, issued := issued s @ [c],
                          outcomes := outcomes s @ [(c, Inl e)] \<rparr>
           | Inr st2 \<Rightarrow> s\<lparr> ctl := st2, issued := issued s @ [c],
                           waiting := waiting s @ [c] \<rparr>))"
| "act s (Arrive now r) =
     (if reading s
      then (case handle_message now (ctl s) r of
              (st1, continue) \<Rightarrow> s\<lparr> ctl := st1, reading := continue \<rparr>)
      else s)"
| "act s (Resume i) =
     (if i < length (waiting s)
      then (case resume (ctl s) (waiting s ! i) of
              (st1, out) \<Rightarrow> s\<lparr> ctl := st1, waiting := drop_nth i (waiting s),
                                outcomes := outcomes s @ [(waiting s ! i, out)] \<rparr>)
      else s)"

definition run_session :: "session \<Rightarrow> action list \<Rightarrow> session" where
  "run_session s acts = foldl act s acts"

text \<open>
  A fresh controller (\<^verbatim>\<open>__init__\<close>) whose \<^verbatim>\<open>ws_connection\<close> is as given: \<open>None\<close>,
  or the socket \<^verbatim>\<open>connect_to_browser\<close> opened.
\<close>

definition new_session :: "websocket option \<Rightarrow> session" where
  "new_session conn =
     \<lparr> ctl = init\<lparr> ws_connection := conn \<rparr>, waiting = [], issued = [], outcomes = [],
       reading = True \<rparr>"

text \<open>The frame carries the id \<open>k\<close>: it is a dict whose \<^verbatim>\<open>"id"\<close> equals \<open>k\<close> in Python.\<close>

definition carries_id :: "json \<Rightarrow> int \<Rightarrow> bool" where
  "carries_id data k =
     (case data of
        JObj d \<Rightarrow> (case map_of d ''id'' of
                     Some v \<Rightarrow> py_key v = Inr (Some k)
                   | None \<Rightarrow> False)
      | _ \<Rightarrow> False)"

section \<open>Invariants of a session\<close>

text \<open>
  \<open>resolved st st'\<close>: the read loop has set the result of one pending future to a frame
  that carries the id it was registered under, and deleted that entry.
\<close>

definition resolved :: "controller \<Rightarrow> controller \<Rightarrow> bool" where
  "resolved st st' =
     (\<exists>k f data. pending_commands st k = Some f \<and> f < length (futures st) \<and>
        futures st ! f = FPending \<and> carries_id data k \<and>
        futures st' = (futures st)[f := FDone data] \<and>
        pending_commands st' = (pending_commands st)(k := None))"

text \<open>
  The counter has been incremented once per future; an entry of the table maps the
  \<open>f+1\<close>-th id to the \<open>f\<close>-th future, which is still pending; a finished future holds
  a frame that carries its id.
\<close>

definition table_ok :: "controller \<Rightarrow> bool" where
  "table_ok st =
     (message_id st = int (length (futures st)) \<and>
      (\<forall>k f. pending_commands st k = Some f \<longrightarrow>
          k = int f + 1 \<and> f < length (futures st) \<and> futures st ! f = FPending) \<and>
      (\<forall>f data. f < length (futures st) \<longrightarrow> futures st ! f = FDone data \<longrightarrow>
          carries_id data (int f + 1)))"

text \<open>The calls registered so far own the futures, in order.\<close>

definition issued_ok :: "session \<Rightarrow> bool" where
  "issued_ok s =
     (map call_future (issued s) = [0..<length (futures (ctl s))] \<and>
      (\<forall>c \<in> set (issued s). call_id c = int (call_future c) + 1))"

text \<open>
  A suspended call has not been cancelled, no two suspended calls share a future, and
  while its future is pending its entry is in the table.
\<close>

definition waiting_ok :: "session \<Rightarrow> bool" where
  "waiting_ok s =
     (distinct (map call_future (waiting s)) \<and>
      (\<forall>c \<in> set (waiting s). c \<in> set (issued s) \<and>
          futures (ctl s) ! call_future c \<noteq> FCancelled \<and>
          (futures (ctl s) ! call_future c = FPending \<longrightarrow>
             pending_commands (ctl s) (call_id c) = Some (call_future c))))"

text \<open>A call that returned a frame returned one that carries its own id.\<close>

definition outcomes_ok :: "session \<Rightarrow> bool" where
  "outcomes_ok s =
     (\<forall>c out. (c, out) \<in> set (outcomes s) \<longrightarrow> c \<in> set (issued s) \<and>
          (\<forall>data. out = Inr data \<longrightarrow> carries_id data (call_id c)))"

definition session_ok :: "session \<Rightarrow> bool" where
  "session_ok s = (table_ok (ctl s) \<and> issued_ok s \<and> waiting_ok s \<and> outcomes_ok s)"

section \<open>Browsers that answer\<close>

text \<open>The frame \<^verbatim>\<open>send_command\<close> writes for a call.\<close>

definition frame :: "int \<Rightarrow> string \<Rightarrow> dict \<Rightarrow> json" where
  "frame mid method params =
     JObj [(''id'', JInt mid), (''method'', JStr method), (''params'', JObj params)]"

text \<open>The controller has a websocket and it is open.\<close>

definition live :: "controller \<Rightarrow> bool" where
  "live st = (case ws_connection st of None \<Rightarrow> False | Some ws \<Rightarrow> ws_closed ws = None)"

text \<open>
  A browser that answers every call, while it is suspended, with one frame: a dict with
  the id of the call and the property \<open>P\<close>.
\<close>

definition answers :: "(dict \<Rightarrow> bool) \<Rightarrow> browser \<Rightarrow> bool" where
  "answers P env =
     (\<forall>m mid. map_of m ''id'' = Some (JInt mid) \<longrightarrow>
        (\<exists>now d. env (JObj m) = [(now, Frame (JObj d))] \<and>
                 map_of d ''id'' = Some (JInt mid) \<and> P d))"

text \<open>The response is \<^verbatim>\<open>{id, error}\<close>: it has an error payload and no result.\<close>

definition error_only :: "dict \<Rightarrow> bool" where
  "error_only d = (dict_has d ''error'' \<and> \<not> dict_has d ''result'')"


text \<open>What \<^verbatim>\<open>process_command\<close> publishes for a command: the reply channel and the payload.\<close>

definition reply_channel :: "dict \<Rightarrow> fstring" where
  "reply_channel cmd = Fmt ''browser:result:'' (dict_get cmd ''session_id'' JNull)"

text \<open>The payload is a successful result for the command.\<close>

definition succeeded :: "dict \<Rightarrow> dict \<Rightarrow> bool" where
  "succeeded cmd result =
     (map_of result ''session_id'' = Some (dict_get cmd ''session_id'' JNull) \<and>
      map_of result ''success'' = Some (JBool True) \<and>
      map_of result ''error'' = None)"

text \<open>The frames written for a list of calls, the first with the id after \<open>mid\<close>.\<close>

fun frames_from :: "int \<Rightarrow> (string \<times> dict) list \<Rightarrow> json list" where
  "frames_from mid [] = []"
| "frames_from mid ((m, p) # cs) = frame (mid + 1) m p # frames_from (mid + 1) cs"

text \<open>
  \<open>served P st cs st'\<close>: from \<open>st\<close> the calls \<open>cs\<close> were made one after the other and
  each was resolved by a frame with its id and the property \<open>P\<close>: the counter advanced
  once per call, each frame was written, each future holds its response, and no entry
  of these calls is left in the table.
\<close>

definition served :: "(dict \<Rightarrow> bool) \<Rightarrow> controller \<Rightarrow> (string \<times> dict) list \<Rightarrow> controller \<Rightarrow> bool" where
  "served P st cs st' =
     (\<exists>ds. length ds = length cs \<and>
        (\<forall>i < length ds. P (ds ! i) \<and>
            map_of (ds ! i) ''id'' = Some (JInt (message_id st + int i + 1))) \<and>
        st' = st\<lparr> message_id := message_id st + int (length cs),
                   futures := futures st @ map (\<lambda>d. FDone (JObj d)) ds,
                   pending_commands :=
                     (\<lambda>k. if message_id st < k \<and> k \<le> message_id st + int (length cs)
                          then None else pending_commands st k),
                   ws_sent := ws_sent st @ frames_from (message_id st) cs \<rparr>)"

text \<open>The two calls \<^verbatim>\<open>type_text\<close> makes for one character.\<close>

definition key_calls :: "json \<Rightarrow> (string \<times> dict) list" where
  "key_calls char = [(''Input.dispatchKeyEvent'', key_event ''keyDown'' char),
                     (''Input.dispatchKeyEvent'', key_event ''keyUp'' char)]"

text \<open>
  The calls a command makes when none of them fails, in order: method and parameters.
\<close>

definition calls_of :: "dict \<Rightarrow> (string \<times> dict) list" where
  "calls_of cmd =
     (let action = dict_get cmd ''action'' JNull in
      if action = JStr ''navigate'' then
        [(''Page.navigate'', [(''url'', dict_get cmd ''url'' JNull)])]
      else if action = JStr ''screenshot'' then
        [(''Page.captureScreenshot'', [(''format'', JStr ''png''), (''quality'', JInt 80)])]
      else if action = JStr ''click'' then
        [(''Input.dispatchMouseEvent'',
            mouse_event ''mousePressed'' (dict_get cmd ''x'' (JInt 0)) (dict_get cmd ''y'' (JInt 0))),
         (''Input.dispatchMouseEvent'',
            mouse_event ''mouseReleased'' (dict_get cmd ''x'' (JInt 0)) (dict_get cmd ''y'' (JInt 0)))]
      else if action = JStr ''type'' then
        (case py_iter (dict_get cmd ''text'' (JStr [])) of
           Inl e \<Rightarrow> []
         | Inr chars \<Rightarrow> concat (map key_calls chars))
      else if action = JStr ''evaluate'' then
        [(''Runtime.evaluate'',
            [(''expression'', dict_get cmd ''expression'' (JStr [])), (''returnByValue'', JBool True)])]
      else if action = JStr ''get_url'' then
        [(''Runtime.evaluate'',
            [(''expression'', JStr ''window.location.href''), (''returnByValue'', JBool True)])]
      else [])"

text \<open>
  The result of a recognized command all of whose calls were answered by
  \<^verbatim>\<open>{id, error}\<close>: success, with the empty screenshot or the value \<^verbatim>\<open>None\<close>.
\<close>

definition result_on_errors :: "dict \<Rightarrow> dict" where
  "result_on_errors cmd =
     (let action = dict_get cmd ''action'' JNull in
      [(''session_id'', dict_get cmd ''session_id'' JNull), (''success'', JBool True)] @
      (if action = JStr ''screenshot'' then [(''data'', JStr [])]
       else if action = JStr ''evaluate'' then [(''value'', JNull)]
       else if action = JStr ''get_url'' then [(''url'', JNull)]
       else []))"

section \<open>The command listener: \<^verbatim>\<open>listen_for_commands\<close>\<close>

text \<open>
  What \<^verbatim>\<open>pubsub.listen()\<close> yields: the \<^verbatim>\<open>"type"\<close> of the message and what
  \<^verbatim>\<open>json.loads\<close> makes of its \<^verbatim>\<open>"data"\<close> (the decoder's error text, or the value).
\<close>

datatype pubsub_message = PubSub string "string + json"

text \<open>
  The \<^verbatim>\<open>for\<close> loop over the messages received. Each command is awaited before the
  next message is taken; an exception is printed, except a cancellation, which
  \<^verbatim>\<open>except Exception\<close> lets through.
\<close>

fun listen_for_commands :: "browser \<Rightarrow> controller \<Rightarrow> pubsub_message list \<Rightarrow> controller \<times> exn option" where
  "listen_for_commands env st [] = (st, None)"
| "listen_for_commands env st (PubSub ty data # messages) =
     (if ty = ''message'' then
        (case data of
           Inl m \<Rightarrow>
             listen_for_commands env (py_print st (Lit (''Error processing command: '' @ m))) messages
         | Inr command \<Rightarrow>
             (case process_command env st command of
                (st1, None) \<Rightarrow> listen_for_commands env st1 messages
              | (st1, Some e) \<Rightarrow>
                  if is_Exception e
                  then listen_for_commands env
                         (py_print st1 (Lit (''Error processing command: '' @ str_exn e))) messages
                  else (st1, Some e)))
      else listen_for_commands env st messages)"

text \<open>The controller after a call that was sent and timed out without any frame handled.\<close>

definition timed_out :: "controller \<Rightarrow> string \<Rightarrow> dict \<Rightarrow> controller" where
  "timed_out st m p =
     st\<lparr> message_id := message_id st + 1,
         futures := futures st @ [FCancelled],
         pending_commands := (pending_commands st)(message_id st + 1 := None),
         ws_sent := ws_sent st @ [frame (message_id st + 1) m p] \<rparr>"

text \<open>The result published for a command whose call of \<open>m\<close> timed out.\<close>

definition timeout_result :: "dict \<Rightarrow> string \<Rightarrow> json" where
  "timeout_result cmd m =
     JObj [(''session_id'', dict_get cmd ''session_id'' JNull), (''success'', JBool False),
           (''error'', JStr (''Command '' @ m @ '' timed out''))]"

text \<open>
  The calls registered by successive \<^verbatim>\<open>send_command\<close>s when the counter is \<open>mid\<close> and
  \<open>n\<close> futures exist.
\<close>

fun issued_calls :: "int \<Rightarrow> nat \<Rightarrow> (string \<times> dict option) list \<Rightarrow> call list" where
  "issued_calls mid n [] = []"
| "issued_calls mid n ((m, p) # cs) =
     \<lparr> call_id = mid + 1, call_method = m, call_future = n \<rparr> # issued_calls (mid + 1) (Suc n) cs"

definition call_actions :: "(string \<times> dict option) list \<Rightarrow> action list" where
  "call_actions cs = map (\<lambda>(m, p). Call m p) cs"

section \<open>Example inputs\<close>

definition example_socket :: websocket where
  "example_socket = WebSocket (JStr ''ws://h/1'') None"

definition example_session :: session where
  "example_session = run_session (new_session (Some example_socket))
      [Call ''Page.enable'' None, Call ''Network.enable'' None]"

definition example_replies :: "action list" where
  "example_replies =
     [Call ''Page.enable'' None, Call ''Network.enable'' None,
      Arrive ''t1'' (Frame (JObj [(''id'', JInt 2), (''result'', JObj [])])),
      Arrive ''t2'' (Frame (JObj [(''id'', JInt 1), (''result'', JObj [(''ok'', JBool True)])])),
      Resume 0, Resume 0]"

definition late_response :: json where
  "late_response = JObj [(''id'', JInt 7), (''result'', JObj [])]"

definition example_lost :: session where
  "example_lost = act example_session (Arrive ''t'' (Closed ''no close frame received or sent''))"

definition example_event :: json where
  "example_event = JObj [(''method'', JStr ''Page.loadEventFired''),
                         (''params'', JObj [(''timestamp'', JInt 1)])]"

text \<open>A target descriptor is a JSON object.\<close>

fun is_descriptor :: "json \<Rightarrow> bool" where
  "is_descriptor (JObj d) = True"
| "is_descriptor x = False"

text \<open>A descriptor whose \<^verbatim>\<open>"type"\<close> is \<^verbatim>\<open>"page"\<close>.\<close>

fun is_page :: "json \<Rightarrow> bool" where
  "is_page (JObj d) = (map_of d ''type'' = Some (JStr ''page''))"
| "is_page x = False"

text \<open>The control-channel address of a descriptor, \<^verbatim>\<open>None\<close> when it is missing.\<close>

fun address :: "json \<Rightarrow> json" where
  "address (JObj d) = dict_get d ''webSocketDebuggerUrl'' JNull"
| "address x = JNull"

text \<open>
  The selection as the specification words it: the first target of type page, falling
  back to the first target overall.
\<close>

definition spec_select :: "json list \<Rightarrow> json" where
  "spec_select ts = (case find is_page ts of Some t \<Rightarrow> t | None \<Rightarrow> hd ts)"

definition example_targets :: json where
  "example_targets =
     JArr [JObj [(''type'', JStr ''page''), (''webSocketDebuggerUrl'', JStr ''ws://h/1'')]]"

text \<open>A fresh controller with an open socket, and browsers for the examples.\<close>

definition connected :: controller where
  "connected = init\<lparr> ws_connection := Some example_socket \<rparr>"

definition reply_id :: "json \<Rightarrow> json" where
  "reply_id message = (case py_index message ''id'' of Inr v \<Rightarrow> v | Inl e \<Rightarrow> JNull)"

definition error_browser :: browser where
  "error_browser message =
     [(''t'', Frame (JObj [(''id'', reply_id message),
                          (''error'', JObj [(''code'', JInt (- 32000)),
                                            (''message'', JStr ''Cannot navigate to invalid URL'')])]))]"


definition silent_browser :: browser where
  "silent_browser message = []"

definition example_navigate :: dict where
  "example_navigate = [(''action'', JStr ''navigate''), (''session_id'', JStr ''s1''),
                       (''url'', JStr ''nowhere'')]"

definition example_unknown :: dict where
  "example_unknown = [(''action'', JStr ''scroll''), (''session_id'', JStr ''s1'')]"


definition example_type :: dict where
  "example_type = [(''action'', JStr ''type''), (''session_id'', JStr ''s2''), (''text'', JStr ''hi'')]"

definition example_error :: json where
  "example_error = JObj [(''code'', JInt (- 32000)),
                         (''message'', JStr ''Cannot navigate to invalid URL'')]"

definition example_navigate2 :: dict where
  "example_navigate2 = [(''action'', JStr ''navigate''), (''session_id'', JStr ''s2''),
                        (''url'', JStr ''elsewhere'')]"

text \<open>
  A browser that answers the first call only after the second has been sent: nothing
  arrives while call 1 is suspended; both responses arrive while call 2 is.
\<close>

definition delayed_browser :: browser where
  "delayed_browser message =
     (if reply_id message = JInt 2
      then [(''t'', Frame (JObj [(''id'', JInt 1), (''result'', JObj [])])),
            (''t'', Frame (JObj [(''id'', JInt 2), (''result'', JObj [])]))]
      else [])"

definition example_commands :: "pubsub_message list" where
  "example_commands = [PubSub ''message'' (Inr (JObj example_navigate)),
                       PubSub ''message'' (Inr (JObj example_navigate2))]"

section \<open>The read loop and the table\<close>

lemma handle_event_frame:
  "handle_event now st event = Inr st' \<Longrightarrow>
     futures st' = futures st \<and> pending_commands st' = pending_commands st \<and>
     message_id st' = message_id st \<and> ws_connection st' = ws_connection st \<and> ws_sent st' = ws_sent st"
  by (auto simp: handle_event_def publish_def split: sum.splits if_splits)

lemma on_message_effect:
  assumes "on_message now st data = Inr st'"
  shows "message_id st' = message_id st \<and> ws_connection st' = ws_connection st \<and> ws_sent st' = ws_sent st \<and>
     ((futures st' = futures st \<and> pending_commands st' = pending_commands st) \<or>
      (\<exists>k f. pending_commands st k = Some f \<and> f < length (futures st) \<and> futures st ! f = FPending \<and>
          carries_id data k \<and> futures st' = (futures st)[f := FDone data] \<and>
          pending_commands st' = (pending_commands st)(k := None)))"
  using assms
  apply (cases data)
  apply (auto simp: on_message_def set_result_def carries_id_def dict_has_def
      split: sum.splits if_splits option.splits bool.splits dest: handle_event_frame)
  done

lemma handle_message_effect:
  assumes "handle_message now st r = (st', b)"
  shows "message_id st' = message_id st \<and>
     ((futures st' = futures st \<and> pending_commands st' = pending_commands st) \<or> resolved st st')"
proof (cases "ws_connection st")
  case None
  with assms show ?thesis by (auto simp: handle_message_def py_print_def)
next
  case (Some ws)
  show ?thesis
  proof (cases "ws_closed ws")
    case (Some reason)
    with \<open>ws_connection st = Some ws\<close> assms show ?thesis
      by (auto simp: handle_message_def py_print_def)
  next
    case None
    show ?thesis
    proof (cases r)
      case (Frame data)
      show ?thesis
      proof (cases "on_message now st data")
        case (Inl e)
        with Frame None \<open>ws_connection st = Some ws\<close> assms show ?thesis
          by (auto simp: handle_message_def py_print_def)
      next
        case (Inr st1)
        with Frame None \<open>ws_connection st = Some ws\<close> assms have "st' = st1"
          by (auto simp: handle_message_def)
        with on_message_effect[OF Inr] show ?thesis
          unfolding resolved_def by blast
      qed
    next
      case (Undecodable m)
      with None \<open>ws_connection st = Some ws\<close> assms show ?thesis
        by (auto simp: handle_message_def py_print_def)
    next
      case (Closed reason)
      with None \<open>ws_connection st = Some ws\<close> assms show ?thesis
        by (auto simp: handle_message_def py_print_def)
    qed
  qed
qed

lemma issued_future_bound:
  assumes "issued_ok s" "c \<in> set (issued s)"
  shows "call_future c < length (futures (ctl s))"
proof -
  from assms(2) have "call_future c \<in> set (map call_future (issued s))" by simp
  with assms(1) show ?thesis by (simp add: issued_ok_def)
qed

lemma new_session_ok: "session_ok (new_session conn)"
  by (simp add: session_ok_def table_ok_def issued_ok_def waiting_ok_def outcomes_ok_def
      new_session_def init_def)

lemma resolved_table_ok:
  assumes t: "table_ok st" and r: "resolved st st'" and mid: "message_id st' = message_id st"
  shows "table_ok st'"
proof -
  from r obtain k f data where
    pk: "pending_commands st k = Some f" and fl: "f < length (futures st)"
    and cid: "carries_id data k"
    and fut: "futures st' = (futures st)[f := FDone data]"
    and pen: "pending_commands st' = (pending_commands st)(k := None)"
    unfolding resolved_def by blast
  from t pk have kf: "k = int f + 1" by (simp add: table_ok_def)
  have a: "message_id st' = int (length (futures st'))"
    using t mid fut by (simp add: table_ok_def)
  have b: "k' = int f' + 1 \<and> f' < length (futures st') \<and> futures st' ! f' = FPending"
    if h: "pending_commands st' k' = Some f'" for k' f'
  proof -
    from h pen have ne: "k' \<noteq> k" and old: "pending_commands st k' = Some f'"
      by (auto split: if_splits)
    from t old have o: "k' = int f' + 1" "f' < length (futures st)" "futures st ! f' = FPending"
      by (simp_all add: table_ok_def)
    from ne o(1) kf have "f' \<noteq> f" by auto
    with o fut show ?thesis by simp
  qed
  have c: "carries_id data' (int f' + 1)"
    if h: "f' < length (futures st')" "futures st' ! f' = FDone data'" for f' data'
  proof (cases "f' = f")
    case True
    with h fut fl have "data' = data" by simp
    with cid kf True show ?thesis by simp
  next
    case False
    with h fut have "f' < length (futures st)" "futures st ! f' = FDone data'" by simp_all
    with t show ?thesis by (simp add: table_ok_def)
  qed
  from a b c show ?thesis unfolding table_ok_def by blast
qed

lemma resolved_waiting_ok:
  assumes t: "table_ok (ctl s)" and w: "waiting_ok s" and i: "issued_ok s"
    and r: "resolved (ctl s) st'"
  shows "waiting_ok (s\<lparr> ctl := st', reading := b \<rparr>)"
proof -
  from r obtain k f data where
    pk: "pending_commands (ctl s) k = Some f" and fl: "f < length (futures (ctl s))"
    and fut: "futures st' = (futures (ctl s))[f := FDone data]"
    and pen: "pending_commands st' = (pending_commands (ctl s))(k := None)"
    unfolding resolved_def by blast
  from t pk have kf: "k = int f + 1" by (simp add: table_ok_def)
  have "c \<in> set (issued s) \<and> futures st' ! call_future c \<noteq> FCancelled \<and>
        (futures st' ! call_future c = FPending \<longrightarrow>
           pending_commands st' (call_id c) = Some (call_future c))"
    if h: "c \<in> set (waiting s)" for c
  proof -
    from w h have ci: "c \<in> set (issued s)"
      and nc: "futures (ctl s) ! call_future c \<noteq> FCancelled"
      and pe: "futures (ctl s) ! call_future c = FPending \<longrightarrow>
                 pending_commands (ctl s) (call_id c) = Some (call_future c)"
      by (simp_all add: waiting_ok_def)
    from i ci have id: "call_id c = int (call_future c) + 1" by (simp add: issued_ok_def)
    show ?thesis
    proof (cases "call_future c = f")
      case True
      with fut fl ci show ?thesis by simp
    next
      case False
      with id kf have "call_id c \<noteq> k" by simp
      with False fut pen nc pe ci show ?thesis by simp
    qed
  qed
  with w show ?thesis by (simp add: waiting_ok_def)
qed

lemma arrive_ok:
  assumes ok: "session_ok s"
  shows "session_ok (act s (Arrive now r))"
proof (cases "reading s")
  case False
  with ok show ?thesis by simp
next
  case True
  obtain st' b where hm: "handle_message now (ctl s) r = (st', b)"
    by (cases "handle_message now (ctl s) r")
  with True have s': "act s (Arrive now r) = s\<lparr> ctl := st', reading := b \<rparr>" by simp
  from ok have t: "table_ok (ctl s)" and i: "issued_ok s" and w: "waiting_ok s"
    and oc: "outcomes_ok s" by (simp_all add: session_ok_def)
  from handle_message_effect[OF hm]
  have mid: "message_id st' = message_id (ctl s)"
    and eff: "(futures st' = futures (ctl s) \<and> pending_commands st' = pending_commands (ctl s)) \<or> resolved (ctl s) st'"
    by auto
  have len: "length (futures st') = length (futures (ctl s))"
    using eff by (auto simp: resolved_def)
  have i': "issued_ok (s\<lparr> ctl := st', reading := b \<rparr>)"
    using i len by (simp add: issued_ok_def)
  have oc': "outcomes_ok (s\<lparr> ctl := st', reading := b \<rparr>)"
    using oc by (simp add: outcomes_ok_def)
  from eff have "table_ok st' \<and> waiting_ok (s\<lparr> ctl := st', reading := b \<rparr>)"
  proof
    assume "futures st' = futures (ctl s) \<and> pending_commands st' = pending_commands (ctl s)"
    with t w mid show ?thesis
      by (simp add: table_ok_def waiting_ok_def)
  next
    assume r: "resolved (ctl s) st'"
    from resolved_table_ok[OF t r mid] resolved_waiting_ok[OF t w i r]
    show ?thesis by simp
  qed
  with i' oc' show ?thesis unfolding s' by (simp add: session_ok_def)
qed

lemma register_effect:
  assumes "register st method params = Inr (st1, c, message)"
  shows "st1 = st\<lparr> message_id := message_id st + 1,
                    futures := futures st @ [FPending],
                    pending_commands := (pending_commands st)(message_id st + 1 \<mapsto> length (futures st)) \<rparr>"
    and "call_id c = message_id st + 1" and "call_future c = length (futures st)"
    and "call_method c = method"
  using assms by (auto simp: register_def Let_def split: option.splits)

lemma ws_send_effect:
  assumes "ws_send st message = Inr st2"
  shows "st2 = st\<lparr> ws_sent := ws_sent st @ [message] \<rparr>"
  using assms by (auto simp: ws_send_def split: option.splits)

lemma resume_effect:
  assumes "resume st c = (st', out)"
  shows "(\<exists>data. futures st ! call_future c = FDone data \<and> st' = st \<and> out = Inr data) \<or>
         (futures st ! call_future c = FCancelled \<and> st' = st \<and> out = Inl CancelledError) \<or>
         (futures st ! call_future c = FPending \<and>
            futures st' = (futures st)[call_future c := FCancelled] \<and>
            pending_commands st' = (pending_commands st)(call_id c := None) \<and>
            message_id st' = message_id st \<and> (\<exists>e. out = Inl e))"
proof (cases "futures st ! call_future c")
  case FPending
  show ?thesis
  proof (cases "pending_commands st (call_id c)")
    case None
    then have "(pending_commands st)(call_id c := None) = pending_commands st" by auto
    with assms FPending None show ?thesis by (auto simp: resume_def Let_def)
  next
    case (Some f)
    with assms FPending show ?thesis by (auto simp: resume_def Let_def)
  qed
next
  case (FDone data)
  with assms show ?thesis by (auto simp: resume_def)
next
  case FCancelled
  with assms show ?thesis by (auto simp: resume_def)
qed

lemma registered_table_ok:
  assumes t: "table_ok st"
  shows "table_ok (st\<lparr> message_id := message_id st + 1,
                    futures := futures st @ [FPending],
                    pending_commands := (pending_commands st)(message_id st + 1 \<mapsto> length (futures st)) \<rparr>)"
    (is "table_ok ?st1")
proof -
  from t have m: "message_id st = int (length (futures st))" by (simp add: table_ok_def)
  have a: "message_id ?st1 = int (length (futures ?st1))" using m by simp
  have b: "k = int f + 1 \<and> f < length (futures ?st1) \<and> futures ?st1 ! f = FPending"
    if h: "pending_commands ?st1 k = Some f" for k f
  proof (cases "k = message_id st + 1")
    case True
    with h have "f = length (futures st)" by simp
    with True m show ?thesis by simp
  next
    case False
    with h have "pending_commands st k = Some f" by simp
    with t have "k = int f + 1" "f < length (futures st)" "futures st ! f = FPending"
      by (simp_all add: table_ok_def)
    then show ?thesis by (simp add: nth_append)
  qed
  have c: "carries_id data (int f + 1)"
    if h: "f < length (futures ?st1)" "futures ?st1 ! f = FDone data" for f data
  proof -
    from h have "f < length (futures st)" by (cases "f = length (futures st)") auto
    with h t show ?thesis by (simp add: nth_append table_ok_def)
  qed
  from a b c show ?thesis unfolding table_ok_def by blast
qed

lemma call_ok:
  assumes ok: "session_ok s"
  shows "session_ok (act s (Call method params))"
proof (cases "register (ctl s) method params")
  case (Inl e)
  with ok show ?thesis by simp
next
  case (Inr x)
  then obtain st1 c message where reg: "register (ctl s) method params = Inr (st1, c, message)"
    by (cases x) auto
  note eff = register_effect[OF reg]
  from ok have t: "table_ok (ctl s)" and i: "issued_ok s" and w: "waiting_ok s"
    and oc: "outcomes_ok s" by (simp_all add: session_ok_def)
  from t have m: "message_id (ctl s) = int (length (futures (ctl s)))" by (simp add: table_ok_def)
  have t1: "table_ok st1" unfolding eff(1) by (rule registered_table_ok[OF t])
  have f1: "futures st1 = futures (ctl s) @ [FPending]" unfolding eff(1) by simp
  have p1: "pending_commands st1 = (pending_commands (ctl s))(call_id c \<mapsto> call_future c)"
    unfolding eff(1) using eff(2,3) by simp
  have cid: "call_id c = int (call_future c) + 1" using eff(2,3) m by simp
  have iss: "map call_future (issued s @ [c]) = [0..<length (futures st1)]"
    using i eff(3) f1 by (simp add: issued_ok_def)
  have ids: "\<forall>c' \<in> set (issued s @ [c]). call_id c' = int (call_future c') + 1"
    using i cid by (auto simp: issued_ok_def)
  have old: "c' \<in> set (issued s @ [c]) \<and> futures st1 ! call_future c' \<noteq> FCancelled \<and>
        (futures st1 ! call_future c' = FPending \<longrightarrow>
           pending_commands st1 (call_id c') = Some (call_future c'))"
    if h: "c' \<in> set (waiting s)" for c'
  proof -
    from w h have ci: "c' \<in> set (issued s)"
      and nc: "futures (ctl s) ! call_future c' \<noteq> FCancelled"
      and pe: "futures (ctl s) ! call_future c' = FPending \<longrightarrow>
                 pending_commands (ctl s) (call_id c') = Some (call_future c')"
      by (simp_all add: waiting_ok_def)
    from issued_future_bound[OF i ci] have lt: "call_future c' < length (futures (ctl s))" .
    from i ci have "call_id c' = int (call_future c') + 1" by (simp add: issued_ok_def)
    with lt cid eff(3) have "call_id c' \<noteq> call_id c" by simp
    with lt ci nc pe f1 p1 show ?thesis by (simp add: nth_append)
  qed
  have fresh: "call_future c \<notin> call_future ` set (waiting s)"
  proof
    assume "call_future c \<in> call_future ` set (waiting s)"
    then obtain c' where "c' \<in> set (waiting s)" "call_future c' = call_future c" by auto
    moreover from this w have "c' \<in> set (issued s)" by (simp add: waiting_ok_def)
    ultimately show False using issued_future_bound[OF i] eff(3) by fastforce
  qed
  have new: "futures st1 ! call_future c = FPending \<and>
             pending_commands st1 (call_id c) = Some (call_future c)"
    using f1 p1 eff(3) by simp
  show ?thesis
  proof (cases "ws_send st1 message")
    case (Inl e)
    with reg have s': "act s (Call method params) =
        s\<lparr> ctl := st1, issued := issued s @ [c], outcomes := outcomes s @ [(c, Inl e)] \<rparr>"
      by simp
    have "issued_ok (s\<lparr> ctl := st1, issued := issued s @ [c], outcomes := outcomes s @ [(c, Inl e)] \<rparr>)"
      using iss ids by (simp add: issued_ok_def)
    moreover have "waiting_ok (s\<lparr> ctl := st1, issued := issued s @ [c], outcomes := outcomes s @ [(c, Inl e)] \<rparr>)"
      using w old by (simp add: waiting_ok_def)
    moreover have "outcomes_ok (s\<lparr> ctl := st1, issued := issued s @ [c], outcomes := outcomes s @ [(c, Inl e)] \<rparr>)"
      using oc by (auto simp: outcomes_ok_def)
    ultimately show ?thesis unfolding s' using t1 by (simp add: session_ok_def)
  next
    case (Inr st2)
    with reg have s': "act s (Call method params) =
        s\<lparr> ctl := st2, issued := issued s @ [c], waiting := waiting s @ [c] \<rparr>"
      by simp
    from ws_send_effect[OF Inr] have st2: "st2 = st1\<lparr> ws_sent := ws_sent st1 @ [message] \<rparr>" .
    have t2: "table_ok st2" using t1 unfolding st2 by (simp add: table_ok_def)
    have "issued_ok (s\<lparr> ctl := st2, issued := issued s @ [c], waiting := waiting s @ [c] \<rparr>)"
      using iss ids unfolding st2 by (simp add: issued_ok_def)
    moreover have "waiting_ok (s\<lparr> ctl := st2, issued := issued s @ [c], waiting := waiting s @ [c] \<rparr>)"
      using w old new fresh unfolding st2 by (simp add: waiting_ok_def)
    moreover have "outcomes_ok (s\<lparr> ctl := st2, issued := issued s @ [c], waiting := waiting s @ [c] \<rparr>)"
      using oc by (auto simp: outcomes_ok_def)
    ultimately show ?thesis unfolding s' using t2 by (simp add: session_ok_def)
  qed
qed

lemma set_drop_nth: "set (drop_nth i xs) \<subseteq> set xs"
  by (auto simp: drop_nth_def dest: in_set_takeD in_set_dropD)

lemma distinct_drop_nth:
  assumes "distinct (map f xs)"
  shows "distinct (map f (drop_nth i xs))"
proof (cases "i < length xs")
  case True
  then have "xs = take i xs @ (xs ! i) # drop (Suc i) xs"
    by (simp add: id_take_nth_drop)
  with assms have "distinct (map f (take i xs @ (xs ! i) # drop (Suc i) xs))"
    by metis
  then show ?thesis by (simp add: drop_nth_def)
next
  case False
  with assms show ?thesis by (simp add: drop_nth_def)
qed

lemma drop_nth_other:
  assumes d: "distinct (map f xs)" and i: "i < length xs" and x: "x \<in> set (drop_nth i xs)"
  shows "f x \<noteq> f (xs ! i)"
proof -
  have "xs = take i xs @ (xs ! i) # drop (Suc i) xs"
    using i by (simp add: id_take_nth_drop)
  with d have "distinct (map f (take i xs @ (xs ! i) # drop (Suc i) xs))"
    by metis
  then have "\<forall>y \<in> set (take i xs) \<union> set (drop (Suc i) xs). f y \<noteq> f (xs ! i)"
    by (auto simp: image_iff)
  with x show ?thesis by (simp add: drop_nth_def)
qed

lemma resume_ok:
  assumes ok: "session_ok s"
  shows "session_ok (act s (Resume i))"
proof (cases "i < length (waiting s)")
  case False
  with ok show ?thesis by simp
next
  case True
  define c where "c = waiting s ! i"
  obtain st' out where rs: "resume (ctl s) c = (st', out)" by (cases "resume (ctl s) c")
  let ?s' = "s\<lparr> ctl := st', waiting := drop_nth i (waiting s), outcomes := outcomes s @ [(c, out)] \<rparr>"
  from True rs have s': "act s (Resume i) = ?s'" by (simp add: c_def)
  from ok have t: "table_ok (ctl s)" and iss: "issued_ok s" and w: "waiting_ok s"
    and oc: "outcomes_ok s" by (simp_all add: session_ok_def)
  from True have cw: "c \<in> set (waiting s)" by (simp add: c_def)
  with w have ci: "c \<in> set (issued s)"
    and nc: "futures (ctl s) ! call_future c \<noteq> FCancelled"
    and pe: "futures (ctl s) ! call_future c = FPending \<longrightarrow>
               pending_commands (ctl s) (call_id c) = Some (call_future c)"
    by (simp_all add: waiting_ok_def)
  from iss ci have cid: "call_id c = int (call_future c) + 1" by (simp add: issued_ok_def)
  from issued_future_bound[OF iss ci] have lt: "call_future c < length (futures (ctl s))" .
  from w have dw: "distinct (map call_future (waiting s))" by (simp add: waiting_ok_def)
  have dw': "distinct (map call_future (drop_nth i (waiting s)))"
    by (rule distinct_drop_nth[OF dw])
  have other: "call_future c' \<noteq> call_future c" if "c' \<in> set (drop_nth i (waiting s))" for c'
    using drop_nth_other[OF dw True that] by (simp add: c_def)
  from resume_effect[OF rs] nc
  consider (resolved) data where "futures (ctl s) ! call_future c = FDone data" "st' = ctl s" "out = Inr data"
    | (timed_out) e where "futures (ctl s) ! call_future c = FPending"
        "futures st' = (futures (ctl s))[call_future c := FCancelled]"
        "pending_commands st' = (pending_commands (ctl s))(call_id c := None)"
        "message_id st' = message_id (ctl s)" "out = Inl e"
    by blast
  then have "table_ok st' \<and> issued_ok ?s' \<and> waiting_ok ?s' \<and> outcomes_ok ?s'"
  proof cases
    case resolved
    from t lt resolved(1) have car: "carries_id data (call_id c)"
      unfolding cid by (simp add: table_ok_def)
    have "issued_ok ?s'" using iss resolved(2) by (simp add: issued_ok_def)
    moreover have "waiting_ok ?s'"
      using w dw' set_drop_nth[of i "waiting s"] resolved(2) by (auto simp: waiting_ok_def)
    moreover have "outcomes_ok ?s'"
      using oc ci car resolved(3) by (auto simp: outcomes_ok_def)
    ultimately show ?thesis using t resolved(2) by simp
  next
    case timed_out
    have a: "message_id st' = int (length (futures st'))"
      using t timed_out(2,4) by (simp add: table_ok_def)
    have b: "k = int f + 1 \<and> f < length (futures st') \<and> futures st' ! f = FPending"
      if h: "pending_commands st' k = Some f" for k f
    proof -
      from h timed_out(3) have ne: "k \<noteq> call_id c" and old: "pending_commands (ctl s) k = Some f"
        by (auto split: if_splits)
      from t old have o: "k = int f + 1" "f < length (futures (ctl s))"
        "futures (ctl s) ! f = FPending" by (simp_all add: table_ok_def)
      from ne o(1) cid have "f \<noteq> call_future c" by auto
      with o timed_out(2) show ?thesis by simp
    qed
    have d: "carries_id data (int f + 1)"
      if h: "f < length (futures st')" "futures st' ! f = FDone data" for f data
    proof -
      from h timed_out(2) lt have "f \<noteq> call_future c" by auto
      with h timed_out(2) have "f < length (futures (ctl s))" "futures (ctl s) ! f = FDone data"
        by simp_all
      with t show ?thesis by (simp add: table_ok_def)
    qed
    from a b d have t': "table_ok st'" unfolding table_ok_def by blast
    have "issued_ok ?s'" using iss timed_out(2) by (simp add: issued_ok_def)
    moreover have "c' \<in> set (issued s) \<and> futures st' ! call_future c' \<noteq> FCancelled \<and>
        (futures st' ! call_future c' = FPending \<longrightarrow>
           pending_commands st' (call_id c') = Some (call_future c'))"
      if h: "c' \<in> set (drop_nth i (waiting s))" for c'
    proof -
      from h set_drop_nth[of i "waiting s"] have cw': "c' \<in> set (waiting s)" by auto
      with w have ci': "c' \<in> set (issued s)"
        and nc': "futures (ctl s) ! call_future c' \<noteq> FCancelled"
        and pe': "futures (ctl s) ! call_future c' = FPending \<longrightarrow>
               pending_commands (ctl s) (call_id c') = Some (call_future c')"
        by (simp_all add: waiting_ok_def)
      from iss ci' have "call_id c' = int (call_future c') + 1" by (simp add: issued_ok_def)
      with other[OF h] cid have "call_id c' \<noteq> call_id c" by simp
      with other[OF h] ci' nc' pe' timed_out(2,3) show ?thesis by simp
    qed
    then have "waiting_ok ?s'" using dw' by (simp add: waiting_ok_def)
    moreover have "outcomes_ok ?s'"
      using oc ci timed_out(5) by (auto simp: outcomes_ok_def)
    ultimately show ?thesis using t' by simp
  qed
  then show ?thesis unfolding s' by (simp add: session_ok_def)
qed

lemma act_ok: "session_ok s \<Longrightarrow> session_ok (act s a)"
  by (cases a) (simp_all only: call_ok arrive_ok resume_ok)

lemma foldl_act_ok: "session_ok s \<Longrightarrow> session_ok (foldl act s acts)"
  by (induction acts arbitrary: s) (simp_all add: act_ok)

lemma run_session_ok: "session_ok (run_session (new_session conn) acts)"
  unfolding run_session_def by (rule foldl_act_ok[OF new_session_ok])

section \<open>Claims\<close>

lemma pending_call_times_out:
  assumes ok: "session_ok s" and c: "c \<in> set (waiting s)"
    and p: "futures (ctl s) ! call_future c = FPending"
  shows "resume (ctl s) c =
     ((ctl s)\<lparr> futures := (futures (ctl s))[call_future c := FCancelled],
               pending_commands := (pending_commands (ctl s))(call_id c := None) \<rparr>,
      Inl (Exception (''Command '' @ call_method c @ '' timed out'')))"
proof -
  from ok c p have "pending_commands (ctl s) (call_id c) = Some (call_future c)"
    by (simp add: session_ok_def waiting_ok_def)
  with p show ?thesis by (simp add: resume_def Let_def)
qed

lemma example_session_eval:
  "example_session =
    \<lparr> ctl = \<lparr> ws_connection = Some example_socket, message_id = 2,
              pending_commands = [1 \<mapsto> 0, 2 \<mapsto> 1],
              futures = [FPending, FPending],
              ws_sent = [JObj [(''id'', JInt 1), (''method'', JStr ''Page.enable''), (''params'', JObj [])],
                         JObj [(''id'', JInt 2), (''method'', JStr ''Network.enable''), (''params'', JObj [])]],
              redis_published = [], stdout = [] \<rparr>,
      waiting = [\<lparr> call_id = 1, call_method = ''Page.enable'', call_future = 0 \<rparr>,
                 \<lparr> call_id = 2, call_method = ''Network.enable'', call_future = 1 \<rparr>],
      issued = [\<lparr> call_id = 1, call_method = ''Page.enable'', call_future = 0 \<rparr>,
                \<lparr> call_id = 2, call_method = ''Network.enable'', call_future = 1 \<rparr>],
      outcomes = [], reading = True \<rparr>"
  by (simp add: example_session_def run_session_def new_session_def init_def register_def
      ws_send_def example_socket_def Let_def)

text \<open>
  Claim C3. In every state a session can reach, a suspended call whose future is still
  pending when it is resumed (no frame with its id has been handled within the
  timeout) ends with the exception \<^verbatim>\<open>Command <method> timed out\<close>; its id was in
  \<^verbatim>\<open>pending_commands\<close> and is deleted from it, and no other entry changes.
\<close>

theorem timeout_removes_entry:
  assumes "s = run_session (new_session conn) acts"
    and "i < length (waiting s)"
    and "futures (ctl s) ! call_future (waiting s ! i) = FPending"
  shows "outcomes (act s (Resume i)) =
           outcomes s @ [(waiting s ! i,
             Inl (Exception (''Command '' @ call_method (waiting s ! i) @ '' timed out'')))]
       \<and> pending_commands (ctl s) (call_id (waiting s ! i)) \<noteq> None
       \<and> pending_commands (ctl (act s (Resume i))) =
           (pending_commands (ctl s))(call_id (waiting s ! i) := None)"
proof -
  from assms(1) have ok: "session_ok s" by (simp add: run_session_ok)
  from assms(2) have c: "waiting s ! i \<in> set (waiting s)" by simp
  from ok c assms(3) have "pending_commands (ctl s) (call_id (waiting s ! i)) \<noteq> None"
    by (simp add: session_ok_def waiting_ok_def)
  with pending_call_times_out[OF ok c assms(3)] assms(2) show ?thesis by simp
qed

theorem timeout_removes_entry_witness:
  "outcomes (act example_session (Resume 0)) =
     [(\<lparr> call_id = 1, call_method = ''Page.enable'', call_future = 0 \<rparr>,
       Inl (Exception ''Command Page.enable timed out''))]
   \<and> pending_commands (ctl example_session) 1 = Some 0
   \<and> pending_commands (ctl (act example_session (Resume 0))) 1 = None
   \<and> pending_commands (ctl (act example_session (Resume 0))) 2 = Some 1"
  using timeout_removes_entry[of example_session "Some example_socket"
      "[Call ''Page.enable'' None, Call ''Network.enable'' None]" 0]
  by (simp add: example_session_def[symmetric] example_session_eval)

lemma issued_ids:
  assumes "issued_ok s"
  shows "map call_id (issued s) = map (\<lambda>f. int f + 1) [0..<length (futures (ctl s))]"
proof -
  have 1: "map call_id (issued s) = map (\<lambda>c. int (call_future c) + 1) (issued s)"
    using assms by (simp add: issued_ok_def)
  have 2: "map (\<lambda>c. int (call_future c) + 1) (issued s) =
           map (\<lambda>f. int f + 1) (map call_future (issued s))"
    by (simp add: comp_def)
  have 3: "map call_future (issued s) = [0..<length (futures (ctl s))]"
    using assms by (simp add: issued_ok_def)
  show ?thesis by (simp only: 1 2 3)
qed

lemma sorted_ids: "sorted_wrt (<) (map (\<lambda>f. int f + 1) [0..<n])"
  by (simp add: sorted_wrt_map sorted_wrt_iff_nth_less)

lemma carries_id_unique: "carries_id data k \<Longrightarrow> carries_id data k' \<Longrightarrow> k = k'"
  by (auto simp: carries_id_def split: json.splits option.splits)

text \<open>
  Claim C2. Whatever calls are made, frames arrive and calls are resumed, in any order:
  the ids of the calls registered are strictly increasing in the order of registration
  (so no id is used twice), each lies between 1 and the counter, and a call that returns
  a frame returns one whose \<^verbatim>\<open>"id"\<close> is its own id and the id of no other call.
  (The comparison is Python's: the table lookup \<^verbatim>\<open>message_id in pending_commands\<close>
  also finds the key 1 for \<^verbatim>\<open>true\<close>.)
\<close>

theorem correlation_correct:
  assumes "s = run_session (new_session conn) acts"
  shows "sorted_wrt (<) (map call_id (issued s))
       \<and> (\<forall>c \<in> set (issued s). 0 < call_id c \<and> call_id c \<le> message_id (ctl s))
       \<and> (\<forall>c data. (c, Inr data) \<in> set (outcomes s) \<longrightarrow>
             c \<in> set (issued s) \<and> carries_id data (call_id c) \<and>
             (\<forall>c' \<in> set (issued s). carries_id data (call_id c') \<longrightarrow> c' = c))"
proof -
  from assms have ok: "session_ok s" by (simp add: run_session_ok)
  then have t: "table_ok (ctl s)" and i: "issued_ok s" and oc: "outcomes_ok s"
    by (simp_all add: session_ok_def)
  have a: "sorted_wrt (<) (map call_id (issued s))"
    unfolding issued_ids[OF i] by (rule sorted_ids)
  have b: "0 < call_id c \<and> call_id c \<le> message_id (ctl s)" if "c \<in> set (issued s)" for c
  proof -
    from i that have "call_id c = int (call_future c) + 1" by (simp add: issued_ok_def)
    moreover from issued_future_bound[OF i that] t
    have "int (call_future c) < message_id (ctl s)" by (simp add: table_ok_def)
    ultimately show ?thesis by simp
  qed
  have inj: "c' = c" if "c \<in> set (issued s)" "c' \<in> set (issued s)" "call_id c' = call_id c" for c c'
  proof -
    from i that have "call_future c' = call_future c" by (simp add: issued_ok_def)
    moreover from i have "distinct (map call_future (issued s))" by (simp add: issued_ok_def)
    ultimately show ?thesis using that(1,2) by (simp add: distinct_map inj_on_def)
  qed
  have c: "c \<in> set (issued s) \<and> carries_id data (call_id c) \<and>
           (\<forall>c' \<in> set (issued s). carries_id data (call_id c') \<longrightarrow> c' = c)"
    if h: "(c, Inr data) \<in> set (outcomes s)" for c data
  proof -
    from oc h have ci: "c \<in> set (issued s)" and car: "carries_id data (call_id c)"
      by (auto simp: outcomes_ok_def)
    have "c' = c" if "c' \<in> set (issued s)" "carries_id data (call_id c')" for c'
      using inj[OF ci that(1)] carries_id_unique[OF that(2) car] by simp
    with ci car show ?thesis by blast
  qed
  from a b c show ?thesis by blast
qed

lemma example_replies_outcomes:
  "outcomes (run_session (new_session (Some example_socket)) example_replies) =
     [(\<lparr> call_id = 1, call_method = ''Page.enable'', call_future = 0 \<rparr>,
       Inr (JObj [(''id'', JInt 1), (''result'', JObj [(''ok'', JBool True)])])),
      (\<lparr> call_id = 2, call_method = ''Network.enable'', call_future = 1 \<rparr>,
       Inr (JObj [(''id'', JInt 2), (''result'', JObj [])]))]"
  by (simp add: example_replies_def run_session_def new_session_def init_def register_def
      ws_send_def example_socket_def Let_def handle_message_def on_message_def dict_has_def
      set_result_def resume_def drop_nth_def)

theorem correlation_correct_witness:
  "outcomes (run_session (new_session (Some example_socket)) example_replies) =
     [(\<lparr> call_id = 1, call_method = ''Page.enable'', call_future = 0 \<rparr>,
       Inr (JObj [(''id'', JInt 1), (''result'', JObj [(''ok'', JBool True)])])),
      (\<lparr> call_id = 2, call_method = ''Network.enable'', call_future = 1 \<rparr>,
       Inr (JObj [(''id'', JInt 2), (''result'', JObj [])]))]
   \<and> carries_id (JObj [(''id'', JInt 1), (''result'', JObj [(''ok'', JBool True)])]) 1
   \<and> carries_id (JObj [(''id'', JInt 2), (''result'', JObj [])]) 2"
  using correlation_correct[of "run_session (new_session (Some example_socket)) example_replies"
      "Some example_socket" example_replies]
  by (simp add: example_replies_outcomes)

text \<open>
  Claim C5, as amended. On an open connection, a frame whose \<^verbatim>\<open>"id"\<close> is hashable and
  is not a key of \<^verbatim>\<open>pending_commands\<close> is ignored without a word: the iteration
  leaves the whole controller as it was (nothing is printed, published or raised, and
  every entry of the table and every future stays) and the loop goes on.
\<close>

theorem late_response_discarded:
  assumes "ws_connection st = Some ws" and "ws_closed ws = None"
    and "map_of d ''id'' = Some v" and "py_key v = Inr key"
    and "\<forall>k. key = Some k \<longrightarrow> pending_commands st k = None"
  shows "handle_message now st (Frame (JObj d)) = (st, True)"
  using assms
  by (cases key) (simp_all add: handle_message_def on_message_def dict_has_def)

theorem late_response_discarded_witness:
  "handle_message ''t'' (ctl example_session) (Frame late_response) = (ctl example_session, True)
   \<and> pending_commands (ctl example_session) 1 = Some 0
   \<and> pending_commands (ctl example_session) 7 = None"
  using late_response_discarded[of "ctl example_session" example_socket
      "[(''id'', JInt 7), (''result'', JObj [])]" "JInt 7" "Some 7" "''t''"]
  by (simp add: example_session_eval example_socket_def late_response_def)

text \<open>
  Claim C5 as stated fails: for the frame \<^verbatim>\<open>{"id": 7, "result": {}}\<close>, whose id is not
  in the table, nothing at all is printed, so there is no warning.
\<close>

theorem late_response_no_warning:
  "stdout (fst (handle_message ''t'' (ctl example_session) (Frame late_response))) = []
   \<and> pending_commands (ctl example_session) 7 = None"
  by (simp add: example_session_eval example_socket_def late_response_def handle_message_def
      on_message_def dict_has_def)

text \<open>
  Claim C7. On an open connection, a frame that is a dict without \<^verbatim>\<open>"id"\<close> and with
  \<^verbatim>\<open>"method"\<close> is published on \<^verbatim>\<open>browser:events\<close> as type, params and timestamp
  exactly when its method is one of \<^verbatim>\<open>Page.loadEventFired\<close>, \<^verbatim>\<open>Page.frameNavigated\<close>
  and \<^verbatim>\<open>Network.requestWillBeSent\<close>; otherwise the controller is left as it was, with
  nothing published and nothing printed.
\<close>

theorem notification_republished:
  assumes "ws_connection st = Some ws" and "ws_closed ws = None"
    and "map_of d ''id'' = None" and "map_of d ''method'' = Some name"
  shows "handle_message now st (Frame (JObj d)) =
     (if name = JStr ''Page.loadEventFired'' \<or> name = JStr ''Page.frameNavigated'' \<or>
         name = JStr ''Network.requestWillBeSent''
      then st\<lparr> redis_published := redis_published st @
               [(Lit ''browser:events'',
                 JObj [(''type'', name), (''params'', dict_get d ''params'' (JObj [])),
                       (''timestamp'', JStr now)])] \<rparr>
      else st, True)"
  using assms
  by (auto simp: handle_message_def on_message_def dict_has_def handle_event_def dict_get_def
      allow_list_def publish_def)

theorem notification_republished_witness:
  "handle_message ''2026-01-01T00:00:00'' (ctl example_session) (Frame example_event) =
     ((ctl example_session)\<lparr> redis_published :=
         [(Lit ''browser:events'',
           JObj [(''type'', JStr ''Page.loadEventFired''),
                 (''params'', JObj [(''timestamp'', JInt 1)]),
                 (''timestamp'', JStr ''2026-01-01T00:00:00'')])] \<rparr>, True)"
  using notification_republished[of "ctl example_session" example_socket
      "[(''method'', JStr ''Page.loadEventFired''), (''params'', JObj [(''timestamp'', JInt 1)])]"
      "JStr ''Page.loadEventFired''" "''2026-01-01T00:00:00''"]
  by (simp add: example_session_eval example_socket_def example_event_def dict_get_def)

lemma closed_effect:
  "pending_commands (fst (handle_message now st (Closed reason))) = pending_commands st \<and>
   futures (fst (handle_message now st (Closed reason))) = futures st \<and>
   message_id (fst (handle_message now st (Closed reason))) = message_id st \<and>
   ws_sent (fst (handle_message now st (Closed reason))) = ws_sent st \<and>
   redis_published (fst (handle_message now st (Closed reason))) = redis_published st"
  by (simp add: handle_message_def py_print_def split: option.splits)

lemma closed_stops:
  "ws_connection st \<noteq> None \<Longrightarrow> \<not> snd (handle_message now st (Closed reason))"
  by (auto simp: handle_message_def split: option.splits)

lemma closed_prints:
  "ws_connection st \<noteq> None \<Longrightarrow>
     stdout (fst (handle_message now st (Closed reason))) =
       stdout st @ [Lit ''Browser connection closed'']"
  by (auto simp: handle_message_def py_print_def split: option.splits)

text \<open>
  Claim C1, as amended. When the connection is lost in a state a session can reach, the
  read loop leaves \<^verbatim>\<open>pending_commands\<close> and every future as they were, no suspended
  call gets an outcome, and the loop prints \<^verbatim>\<open>Browser connection closed\<close> and stops. A
  call whose future is still pending then ends, when it is resumed, by its own timeout,
  which deletes its entry.
\<close>

theorem connection_loss_no_sweep:
  assumes "s = run_session (new_session conn) acts"
    and "s' = act s (Arrive now (Closed reason))"
  shows "pending_commands (ctl s') = pending_commands (ctl s)
       \<and> futures (ctl s') = futures (ctl s)
       \<and> waiting s' = waiting s \<and> outcomes s' = outcomes s
       \<and> (reading s \<and> ws_connection (ctl s) \<noteq> None \<longrightarrow>
            \<not> reading s' \<and>
            stdout (ctl s') = stdout (ctl s) @ [Lit ''Browser connection closed''])
       \<and> (\<forall>c \<in> set (waiting s'). futures (ctl s') ! call_future c = FPending \<longrightarrow>
             snd (resume (ctl s') c) =
               Inl (Exception (''Command '' @ call_method c @ '' timed out'')) \<and>
             pending_commands (fst (resume (ctl s') c)) (call_id c) = None)"
proof -
  have s': "s' = run_session (new_session conn) (acts @ [Arrive now (Closed reason)])"
    using assms by (simp add: run_session_def)
  then have ok: "session_ok s'" by (simp add: run_session_ok)
  obtain st1 b where hm: "handle_message now (ctl s) (Closed reason) = (st1, b)"
    by (cases "handle_message now (ctl s) (Closed reason)")
  have a: "pending_commands (ctl s') = pending_commands (ctl s) \<and>
        futures (ctl s') = futures (ctl s)"
    using closed_effect[of now "ctl s" reason] hm assms(2) by (cases "reading s") simp_all
  have b: "waiting s' = waiting s \<and> outcomes s' = outcomes s"
    using hm assms(2) by (cases "reading s") simp_all
  have c: "\<not> reading s' \<and> stdout (ctl s') = stdout (ctl s) @ [Lit ''Browser connection closed'']"
    if "reading s" "ws_connection (ctl s) \<noteq> None"
    using closed_stops[OF that(2), of now reason] closed_prints[OF that(2), of now reason]
      hm assms(2) that(1) by simp
  have d: "snd (resume (ctl s') c) = Inl (Exception (''Command '' @ call_method c @ '' timed out''))
        \<and> pending_commands (fst (resume (ctl s') c)) (call_id c) = None"
    if "c \<in> set (waiting s')" "futures (ctl s') ! call_future c = FPending" for c
    using pending_call_times_out[OF ok that] by simp
  from a b c d show ?thesis by blast
qed

lemma example_lost_eval:
  "example_lost = example_session\<lparr>
      ctl := (ctl example_session)\<lparr>
        ws_connection := Some (WebSocket (JStr ''ws://h/1'') (Some ''no close frame received or sent'')),
        stdout := [Lit ''Browser connection closed''] \<rparr>,
      reading := False \<rparr>"
  by (simp add: example_lost_def example_session_eval handle_message_def example_socket_def
      py_print_def)

theorem connection_loss_no_sweep_witness:
  "pending_commands (ctl example_lost) = pending_commands (ctl example_session)
   \<and> waiting example_lost = waiting example_session
   \<and> length (waiting example_lost) = 2
   \<and> \<not> reading example_lost
   \<and> snd (resume (ctl example_lost) (waiting example_lost ! 0)) =
        Inl (Exception ''Command Page.enable timed out'')
   \<and> pending_commands (fst (resume (ctl example_lost) (waiting example_lost ! 0))) 1 = None"
  using connection_loss_no_sweep[OF example_session_def example_lost_def]
  by (simp add: example_lost_eval example_session_eval resume_def Let_def)

text \<open>
  Claim C1 as stated fails: with two calls outstanding, after the connection is lost
  both entries are still in the table, both futures are pending, both calls are still
  suspended and none has an outcome.
\<close>

theorem connection_loss_counterexample:
  "pending_commands (ctl example_lost) 1 = Some 0
   \<and> pending_commands (ctl example_lost) 2 = Some 1
   \<and> futures (ctl example_lost) = [FPending, FPending]
   \<and> length (waiting example_lost) = 2
   \<and> outcomes example_lost = []"
  by (simp add: example_lost_eval example_session_eval)

lemma first_page_descriptors:
  assumes "\<forall>t \<in> set ts. is_descriptor t"
  shows "first_page ts dflt = Inr (case find is_page ts of Some t \<Rightarrow> t | None \<Rightarrow> dflt)"
  using assms
proof (induction ts)
  case Nil
  then show ?case by simp
next
  case (Cons t ts)
  then obtain d where t: "t = JObj d" by (cases t) auto
  from Cons have ih: "first_page ts dflt = Inr (case find is_page ts of Some t \<Rightarrow> t | None \<Rightarrow> dflt)"
    by simp
  show ?case
  proof (cases "map_of d ''type''")
    case None
    with t ih show ?thesis by (simp add: dict_get_def)
  next
    case (Some ty)
    with t ih show ?thesis by (simp add: dict_get_def)
  qed
qed

lemma select_target_descriptors:
  assumes "\<forall>t \<in> set ts. is_descriptor t" and "ts \<noteq> []"
  shows "select_target (JArr ts) = Inr (spec_select ts)"
proof -
  from assms(2) obtain t0 ts' where ts: "ts = t0 # ts'" by (cases ts) auto
  have "select_target (JArr ts) = first_page ts t0" by (simp add: ts)
  also have "\<dots> = Inr (case find is_page ts of Some t \<Rightarrow> t | None \<Rightarrow> t0)"
    by (rule first_page_descriptors[OF assms(1)])
  also have "\<dots> = Inr (spec_select ts)" by (simp add: spec_select_def ts split: option.splits)
  finally show ?thesis .
qed

lemma spec_select_descriptor:
  assumes "\<forall>t \<in> set ts. is_descriptor t" and "ts \<noteq> []"
  shows "is_descriptor (spec_select ts)"
proof (cases "find is_page ts")
  case None
  with assms show ?thesis by (simp add: spec_select_def)
next
  case (Some t)
  then have "t \<in> set ts" by (auto simp: find_Some_iff)
  with assms Some show ?thesis by (simp add: spec_select_def)
qed

lemma connect_failure_keeps_connection:
  "\<not> snd (connect_to_browser discovery dial st) \<Longrightarrow>
     ws_connection (fst (connect_to_browser discovery dial st)) = ws_connection st"
  by (auto simp: connect_to_browser_def connect_failed_def py_print_def
      split: sum.splits option.splits if_splits)

text \<open>
  Claim C6. For a discovery answer that is a list of target descriptors (JSON objects):
  an empty list makes \<^verbatim>\<open>connect_to_browser\<close> return \<^verbatim>\<open>False\<close>; otherwise the target
  chosen is the first of type page, or the first target when there is none; if its
  \<^verbatim>\<open>webSocketDebuggerUrl\<close> is missing (or otherwise falsy) the result is \<^verbatim>\<open>False\<close>,
  else the socket is opened to that address. Whenever the result is \<^verbatim>\<open>False\<close> the
  controller's connection is unchanged; no exception leaves the function.
\<close>

theorem target_selection:
  assumes "\<forall>t \<in> set ts. is_descriptor t"
  shows "(ts = [] \<longrightarrow>
            connect_to_browser (Inr (JArr ts)) dial st =
              (py_print st (Lit ''No browser targets found''), False))
       \<and> (ts \<noteq> [] \<longrightarrow>
            select_target (JArr ts) = Inr (spec_select ts) \<and>
            connect_to_browser (Inr (JArr ts)) dial st =
              (if \<not> truthy (address (spec_select ts))
               then (py_print st (Lit ''No WebSocket URL found''), False)
               else case dial (address (spec_select ts)) of
                      Some e \<Rightarrow>
                        (py_print st (Lit (''Failed to connect to browser: '' @ str_exn e)), False)
                    | None \<Rightarrow>
                        (py_print (st\<lparr> ws_connection :=
                                     Some (WebSocket (address (spec_select ts)) None) \<rparr>)
                           (Fmt ''Connected to browser: '' (address (spec_select ts))), True)))
       \<and> (\<not> snd (connect_to_browser (Inr (JArr ts)) dial st) \<longrightarrow>
            ws_connection (fst (connect_to_browser (Inr (JArr ts)) dial st)) = ws_connection st)"
proof -
  have a: "connect_to_browser (Inr (JArr [])) dial st =
             (py_print st (Lit ''No browser targets found''), False)"
    by (simp add: connect_to_browser_def)
  have b: "select_target (JArr ts) = Inr (spec_select ts) \<and>
        connect_to_browser (Inr (JArr ts)) dial st =
              (if \<not> truthy (address (spec_select ts))
               then (py_print st (Lit ''No WebSocket URL found''), False)
               else case dial (address (spec_select ts)) of
                      Some e \<Rightarrow>
                        (py_print st (Lit (''Failed to connect to browser: '' @ str_exn e)), False)
                    | None \<Rightarrow>
                        (py_print (st\<lparr> ws_connection :=
                                     Some (WebSocket (address (spec_select ts)) None) \<rparr>)
                           (Fmt ''Connected to browser: '' (address (spec_select ts))), True))"
    if ne: "ts \<noteq> []"
  proof -
    note sel = select_target_descriptors[OF assms ne]
    from spec_select_descriptor[OF assms ne] obtain d where d: "spec_select ts = JObj d"
      by (cases "spec_select ts") auto
    from ne sel d show ?thesis
      by (simp add: connect_to_browser_def connect_failed_def split: option.splits)
  qed
  from a b connect_failure_keeps_connection[of "Inr (JArr ts)" dial st] show ?thesis by blast
qed

theorem target_selection_witness:
  "connect_to_browser (Inr example_targets) (\<lambda>url. None) init =
     (init\<lparr> ws_connection := Some (WebSocket (JStr ''ws://h/1'') None),
            stdout := [Fmt ''Connected to browser: '' (JStr ''ws://h/1'')] \<rparr>, True)"
  using target_selection[of
      "[JObj [(''type'', JStr ''page''), (''webSocketDebuggerUrl'', JStr ''ws://h/1'')]]"
      "\<lambda>url. None" init]
  by (simp add: example_targets_def spec_select_def dict_get_def py_print_def init_def)

section \<open>The dispatcher\<close>

lemma live_cases: "live st \<Longrightarrow> \<exists>ws. ws_connection st = Some ws \<and> ws_closed ws = None"
  by (auto simp: live_def split: option.splits)

lemma send_command_answered:
  assumes l: "live st"
    and e: "env (frame (message_id st + 1) method params) = [(now, Frame (JObj d))]"
    and i: "map_of d ''id'' = Some (JInt (message_id st + 1))"
  shows "send_command env st method (Some params) =
     (st\<lparr> message_id := message_id st + 1,
          futures := futures st @ [FDone (JObj d)],
          pending_commands := (pending_commands st)(message_id st + 1 := None),
          ws_sent := ws_sent st @ [frame (message_id st + 1) method params] \<rparr>,
      Inr (JObj d))"
proof -
  from live_cases[OF l] obtain ws where ws: "ws_connection st = Some ws" "ws_closed ws = None"
    by blast
  let ?mid = "message_id st + 1"
  let ?c = "\<lparr> call_id = ?mid, call_method = method, call_future = length (futures st) \<rparr>"
  let ?st1 = "st\<lparr> message_id := ?mid, futures := futures st @ [FPending],
                  pending_commands := (pending_commands st)(?mid \<mapsto> length (futures st)) \<rparr>"
  let ?st2 = "?st1\<lparr> ws_sent := ws_sent st @ [frame ?mid method params] \<rparr>"
  let ?st3 = "?st2\<lparr> futures := futures st @ [FDone (JObj d)],
                    pending_commands := (pending_commands st)(?mid := None) \<rparr>"
  have reg: "register st method (Some params) = Inr (?st1, ?c, frame ?mid method params)"
    using ws by (simp add: register_def frame_def Let_def)
  have snd: "ws_send ?st1 (frame ?mid method params) = Inr ?st2"
    using ws by (simp add: ws_send_def)
  have om: "on_message now ?st2 (JObj d) = Inr ?st3"
    using i by (simp add: on_message_def dict_has_def set_result_def)
  have hm: "handle_messages ?st2 [(now, Frame (JObj d))] = ?st3"
    using ws om by (simp add: handle_message_def)
  have rs: "resume ?st3 ?c = (?st3, Inr (JObj d))"
    by (simp add: resume_def)
  show ?thesis
    unfolding send_command_def reg using snd e hm rs by simp
qed




lemma process_command_ok:
  assumes "run_action env st cmd (dict_get cmd ''action'' JNull)
             [(''session_id'', dict_get cmd ''session_id'' JNull), (''success'', JBool False)]
           = (st', Inr result)"
  shows "process_command env st (JObj cmd) = (publish st' (reply_channel cmd) (JObj result), None)"
  using assms by (simp add: process_command_def reply_channel_def Let_def)

lemma recognized_cases:
  assumes "a \<in> set recognized"
  shows "a = JStr ''navigate'' \<or> a = JStr ''screenshot'' \<or> a = JStr ''click'' \<or>
      a = JStr ''type'' \<or> a = JStr ''evaluate'' \<or> a = JStr ''get_url''"
  using assms by (simp add: recognized_def)

text \<open>
  Claim C4, as amended. For a command whose action is none of the six recognized names
  (or is missing), \<^verbatim>\<open>process_command\<close> sends nothing, raises nothing and publishes exactly
  one result on the reply channel: the session id and \<^verbatim>\<open>success\<close> false, with no
  \<^verbatim>\<open>error\<close> field.
\<close>

theorem unknown_action_result:
  assumes "dict_get cmd ''action'' JNull \<notin> set recognized"
  shows "process_command env st (JObj cmd) =
     (publish st (reply_channel cmd)
        (JObj [(''session_id'', dict_get cmd ''session_id'' JNull), (''success'', JBool False)]),
      None)"
proof -
  from assms have "run_action env st cmd (dict_get cmd ''action'' JNull)
      [(''session_id'', dict_get cmd ''session_id'' JNull), (''success'', JBool False)]
    = (st, Inr [(''session_id'', dict_get cmd ''session_id'' JNull), (''success'', JBool False)])"
    by (simp add: run_action_def recognized_def)
  from process_command_ok[OF this] show ?thesis .
qed

lemma error_browser_answers: "answers error_only error_browser"
  by (simp add: answers_def error_browser_def error_only_def dict_has_def reply_id_def)


lemma connected_live: "live connected"
  by (simp add: live_def connected_def init_def example_socket_def)

lemma example_navigate_eval:
  "process_command error_browser connected (JObj example_navigate) =
     (connected\<lparr> message_id := 1,
        futures := [FDone (JObj [(''id'', JInt 1),
                          (''error'', JObj [(''code'', JInt (- 32000)),
                                            (''message'', JStr ''Cannot navigate to invalid URL'')])])],
        ws_sent := [frame 1 ''Page.navigate'' [(''url'', JStr ''nowhere'')]],
        redis_published := [(Fmt ''browser:result:'' (JStr ''s1''),
                             JObj [(''session_id'', JStr ''s1''), (''success'', JBool True)])] \<rparr>,
      None)"
  by (simp add: process_command_def example_navigate_def dict_get_def run_action_def
      navigate_def send_command_def register_def ws_send_def connected_def init_def
      example_socket_def Let_def error_browser_def reply_id_def handle_message_def on_message_def
      dict_has_def set_result_def resume_def publish_def frame_def)

theorem unknown_action_result_witness:
  "process_command silent_browser connected (JObj example_unknown) =
     (connected\<lparr> redis_published := [(Fmt ''browser:result:'' (JStr ''s1''),
         JObj [(''session_id'', JStr ''s1''), (''success'', JBool False)])] \<rparr>, None)"
  using unknown_action_result[of example_unknown silent_browser connected]
  by (simp add: example_unknown_def recognized_def dict_get_def reply_channel_def publish_def
      connected_def init_def)

text \<open>
  Claim C4 as stated fails: for the command \<^verbatim>\<open>{"action": "scroll", "session_id": "s1"}\<close>
  the one result published has no \<^verbatim>\<open>error\<close> field, so it carries no
  unsupported-action error.
\<close>

theorem unknown_action_no_error:
  "redis_published (fst (process_command silent_browser connected (JObj example_unknown))) =
     [(Fmt ''browser:result:'' (JStr ''s1''),
       JObj [(''session_id'', JStr ''s1''), (''success'', JBool False)])]
   \<and> map_of [(''session_id'', JStr ''s1''), (''success'', JBool False)] ''error'' = None"
  by (simp add: process_command_def run_action_def example_unknown_def dict_get_def publish_def
      connected_def init_def Let_def)







section \<open>Calls made and commands in sequence\<close>

lemma frames_from_append:
  "frames_from mid (cs @ cs') = frames_from mid cs @ frames_from (mid + int (length cs)) cs'"
  by (induction cs arbitrary: mid) (auto simp: add.assoc)

lemma served_nil: "served P st [] st"
proof -
  have "(\<lambda>k. if message_id st < k \<and> k \<le> message_id st then None else pending_commands st k)
        = pending_commands st"
    by (auto simp: fun_eq_iff)
  then show ?thesis
    unfolding served_def by (intro exI[of _ "[]"]) simp
qed

lemma served_live: "served P st cs st' \<Longrightarrow> live st \<Longrightarrow> live st'"
  by (auto simp: served_def live_def)

lemma served_one:
  assumes l: "live st"
    and e: "env (frame (message_id st + 1) m p) = [(now, Frame (JObj d))]"
    and i: "map_of d ''id'' = Some (JInt (message_id st + 1))" and pd: "P d"
  shows "send_command env st m (Some p) =
           (st\<lparr> message_id := message_id st + 1,
                futures := futures st @ [FDone (JObj d)],
                pending_commands := (pending_commands st)(message_id st + 1 := None),
                ws_sent := ws_sent st @ [frame (message_id st + 1) m p] \<rparr>, Inr (JObj d))
       \<and> served P st [(m, p)]
           (st\<lparr> message_id := message_id st + 1,
                futures := futures st @ [FDone (JObj d)],
                pending_commands := (pending_commands st)(message_id st + 1 := None),
                ws_sent := ws_sent st @ [frame (message_id st + 1) m p] \<rparr>)"
proof -
  have pc: "(pending_commands st)(message_id st + 1 := None) =
        (\<lambda>k. if message_id st < k \<and> k \<le> message_id st + 1 then None else pending_commands st k)"
    by (auto simp: fun_eq_iff)
  have "served P st [(m, p)]
           (st\<lparr> message_id := message_id st + 1,
                futures := futures st @ [FDone (JObj d)],
                pending_commands := (pending_commands st)(message_id st + 1 := None),
                ws_sent := ws_sent st @ [frame (message_id st + 1) m p] \<rparr>)"
    unfolding served_def using i pd pc by (intro exI[of _ "[d]"]) simp
  with send_command_answered[of st env m p now d, OF l e i] show ?thesis by simp
qed

lemma served_trans:
  assumes 1: "served P st cs st1" and 2: "served P st1 cs' st2"
  shows "served P st (cs @ cs') st2"
proof -
  from 1 obtain ds where l1: "length ds = length cs"
    and p1: "\<forall>i < length ds. P (ds ! i) \<and>
            map_of (ds ! i) ''id'' = Some (JInt (message_id st + int i + 1))"
    and s1: "st1 = st\<lparr> message_id := message_id st + int (length cs),
                   futures := futures st @ map (\<lambda>d. FDone (JObj d)) ds,
                   pending_commands :=
                     (\<lambda>k. if message_id st < k \<and> k \<le> message_id st + int (length cs)
                          then None else pending_commands st k),
                   ws_sent := ws_sent st @ frames_from (message_id st) cs \<rparr>"
    unfolding served_def by blast
  from 2 obtain ds' where l2: "length ds' = length cs'"
    and p2: "\<forall>i < length ds'. P (ds' ! i) \<and>
            map_of (ds' ! i) ''id'' = Some (JInt (message_id st1 + int i + 1))"
    and s2: "st2 = st1\<lparr> message_id := message_id st1 + int (length cs'),
                   futures := futures st1 @ map (\<lambda>d. FDone (JObj d)) ds',
                   pending_commands :=
                     (\<lambda>k. if message_id st1 < k \<and> k \<le> message_id st1 + int (length cs')
                          then None else pending_commands st1 k),
                   ws_sent := ws_sent st1 @ frames_from (message_id st1) cs' \<rparr>"
    unfolding served_def by blast
  have m1: "message_id st1 = message_id st + int (length cs)" by (simp add: s1)
  have a: "length (ds @ ds') = length (cs @ cs')" using l1 l2 by simp
  have b: "P ((ds @ ds') ! i) \<and>
            map_of ((ds @ ds') ! i) ''id'' = Some (JInt (message_id st + int i + 1))"
    if "i < length (ds @ ds')" for i
  proof (cases "i < length ds")
    case True
    with p1 show ?thesis by (simp add: nth_append)
  next
    case False
    with that have "i - length ds < length ds'" by simp
    with p2 have "P (ds' ! (i - length ds)) \<and> map_of (ds' ! (i - length ds)) ''id'' =
        Some (JInt (message_id st1 + int (i - length ds) + 1))" by blast
    moreover have "message_id st1 + int (i - length ds) = message_id st + int i"
      using False m1 l1 by simp
    ultimately show ?thesis using False by (simp add: nth_append)
  qed
  have pc: "(\<lambda>k. if message_id st1 < k \<and> k \<le> message_id st1 + int (length cs')
                 then None else pending_commands st1 k) =
            (\<lambda>k. if message_id st < k \<and> k \<le> message_id st + int (length (cs @ cs'))
                 then None else pending_commands st k)"
    unfolding m1 by (auto simp: fun_eq_iff s1)
  have c: "st2 = st\<lparr> message_id := message_id st + int (length (cs @ cs')),
                   futures := futures st @ map (\<lambda>d. FDone (JObj d)) (ds @ ds'),
                   pending_commands :=
                     (\<lambda>k. if message_id st < k \<and> k \<le> message_id st + int (length (cs @ cs'))
                          then None else pending_commands st k),
                   ws_sent := ws_sent st @ frames_from (message_id st) (cs @ cs') \<rparr>"
    unfolding s2 pc by (simp add: s1 frames_from_append)
  from a b c show ?thesis unfolding served_def by blast
qed

lemma send_command_served:
  assumes a: "answers P env" and l: "live st"
  shows "\<exists>st' d. send_command env st m (Some p) = (st', Inr (JObj d)) \<and> P d \<and>
           served P st [(m, p)] st'"
proof -
  have "map_of [(''id'', JInt (message_id st + 1)), (''method'', JStr m),
                (''params'', JObj p)] ''id'' = Some (JInt (message_id st + 1))"
    by simp
  with a obtain now d where
    e: "env (frame (message_id st + 1) m p) = [(now, Frame (JObj d))]"
    and i: "map_of d ''id'' = Some (JInt (message_id st + 1))" and pd: "P d"
    unfolding answers_def frame_def by blast
  from served_one[of st env m p now d P, OF l e i pd] pd show ?thesis by blast
qed

lemma pair_served:
  assumes a: "answers P env" and l: "live st"
  shows "\<exists>st1 d1 st2 d2.
           send_command env st m1 (Some p1) = (st1, Inr (JObj d1)) \<and>
           send_command env st1 m2 (Some p2) = (st2, Inr (JObj d2)) \<and>
           served P st [(m1, p1), (m2, p2)] st2"
proof -
  from send_command_served[OF a l, of m1 p1] obtain st1 d1 where
    1: "send_command env st m1 (Some p1) = (st1, Inr (JObj d1))"
    and s1: "served P st [(m1, p1)] st1" by blast
  from send_command_served[OF a served_live[OF s1 l], of m2 p2] obtain st2 d2 where
    2: "send_command env st1 m2 (Some p2) = (st2, Inr (JObj d2))"
    and s2: "served P st1 [(m2, p2)] st2" by blast
  from served_trans[OF s1 s2] 1 2 show ?thesis by auto
qed

lemma type_chars_served:
  assumes a: "answers P env"
  shows "live st \<Longrightarrow> \<exists>st'. type_chars env st chars = (st', Inr ()) \<and>
           served P st (concat (map key_calls chars)) st'"
proof (induction chars arbitrary: st)
  case Nil
  then show ?case by (simp add: served_nil)
next
  case (Cons char chars)
  from pair_served[OF a Cons.prems, of "''Input.dispatchKeyEvent''" "key_event ''keyDown'' char"
      "''Input.dispatchKeyEvent''" "key_event ''keyUp'' char"]
  obtain st1 d1 st2 d2 where
    1: "send_command env st ''Input.dispatchKeyEvent'' (Some (key_event ''keyDown'' char))
          = (st1, Inr (JObj d1))"
    and 2: "send_command env st1 ''Input.dispatchKeyEvent'' (Some (key_event ''keyUp'' char))
          = (st2, Inr (JObj d2))"
    and s: "served P st (key_calls char) st2"
    unfolding key_calls_def by blast
  from Cons.IH[OF served_live[OF s Cons.prems]] obtain st3 where
    3: "type_chars env st2 chars = (st3, Inr ())"
    and s3: "served P st2 (concat (map key_calls chars)) st3"
    by blast
  have "type_chars env st (char # chars) = (st3, Inr ())" by (simp add: 1 2 3)
  moreover from served_trans[OF s s3]
  have "served P st (concat (map key_calls (char # chars))) st3" by simp
  ultimately show ?case by blast
qed

lemma error_only_reads:
  assumes "error_only d"
  shows "dict_get d ''result'' (JObj []) = JObj []"
  using assms by (simp add: error_only_def dict_has_def dict_get_def)

lemma dict_get_nil: "dict_get [] k v = v"
  by (simp add: dict_get_def)

lemma run_action_on_errors:
  assumes a: "answers error_only env" and l: "live st"
    and r: "dict_get cmd ''action'' JNull \<in> set recognized"
    and t: "dict_get cmd ''action'' JNull = JStr ''type'' \<longrightarrow>
              (\<exists>chars. py_iter (dict_get cmd ''text'' (JStr [])) = Inr chars)"
  shows "\<exists>st'. run_action env st cmd (dict_get cmd ''action'' JNull)
                [(''session_id'', dict_get cmd ''session_id'' JNull), (''success'', JBool False)]
             = (st', Inr (result_on_errors cmd)) \<and>
           served error_only st (calls_of cmd) st'"
proof -
  from recognized_cases[OF r] consider
    (1) "dict_get cmd ''action'' JNull = JStr ''navigate''"
    | (2) "dict_get cmd ''action'' JNull = JStr ''screenshot''"
    | (3) "dict_get cmd ''action'' JNull = JStr ''click''"
    | (4) "dict_get cmd ''action'' JNull = JStr ''type''"
    | (5) "dict_get cmd ''action'' JNull = JStr ''evaluate''"
    | (6) "dict_get cmd ''action'' JNull = JStr ''get_url''"
    by (elim disjE) (erule that)+
  then show ?thesis
  proof cases
    case 1
    from send_command_served[OF a l, of "''Page.navigate''" "[(''url'', dict_get cmd ''url'' JNull)]"]
    obtain st' d where
      "send_command env st ''Page.navigate'' (Some [(''url'', dict_get cmd ''url'' JNull)])
         = (st', Inr (JObj d))"
      "served error_only st [(''Page.navigate'', [(''url'', dict_get cmd ''url'' JNull)])] st'"
      by blast
    then show ?thesis
      unfolding 1 by (simp add: run_action_def navigate_def calls_of_def result_on_errors_def 1)
  next
    case 2
    from send_command_served[OF a l, of "''Page.captureScreenshot''"
        "[(''format'', JStr ''png''), (''quality'', JInt 80)]"]
    obtain st' d where
      "send_command env st ''Page.captureScreenshot''
         (Some [(''format'', JStr ''png''), (''quality'', JInt 80)]) = (st', Inr (JObj d))"
      "error_only d"
      "served error_only st
         [(''Page.captureScreenshot'', [(''format'', JStr ''png''), (''quality'', JInt 80)])] st'"
      by blast
    then show ?thesis
      unfolding 2
      by (simp add: run_action_def screenshot_def calls_of_def result_on_errors_def 2
          error_only_reads dict_get_nil)
  next
    case 3
    from pair_served[OF a l, of "''Input.dispatchMouseEvent''"
        "mouse_event ''mousePressed'' (dict_get cmd ''x'' (JInt 0)) (dict_get cmd ''y'' (JInt 0))"
        "''Input.dispatchMouseEvent''"
        "mouse_event ''mouseReleased'' (dict_get cmd ''x'' (JInt 0)) (dict_get cmd ''y'' (JInt 0))"]
    obtain st1 d1 st2 d2 where
      "send_command env st ''Input.dispatchMouseEvent''
         (Some (mouse_event ''mousePressed'' (dict_get cmd ''x'' (JInt 0)) (dict_get cmd ''y'' (JInt 0))))
         = (st1, Inr (JObj d1))"
      "send_command env st1 ''Input.dispatchMouseEvent''
         (Some (mouse_event ''mouseReleased'' (dict_get cmd ''x'' (JInt 0)) (dict_get cmd ''y'' (JInt 0))))
         = (st2, Inr (JObj d2))"
      "served error_only st
         [(''Input.dispatchMouseEvent'',
            mouse_event ''mousePressed'' (dict_get cmd ''x'' (JInt 0)) (dict_get cmd ''y'' (JInt 0))),
          (''Input.dispatchMouseEvent'',
            mouse_event ''mouseReleased'' (dict_get cmd ''x'' (JInt 0)) (dict_get cmd ''y'' (JInt 0)))]
         st2"
      by blast
    then show ?thesis
      unfolding 3 by (simp add: run_action_def click_def calls_of_def result_on_errors_def 3)
  next
    case 4
    with t obtain chars where c: "py_iter (dict_get cmd ''text'' (JStr [])) = Inr chars" by blast
    from type_chars_served[OF a l, of chars] obtain st' where
      "type_chars env st chars = (st', Inr ())"
      "served error_only st (concat (map key_calls chars)) st'" by blast
    then show ?thesis
      unfolding 4 by (simp add: run_action_def type_text_def calls_of_def result_on_errors_def 4 c)
  next
    case 5
    from send_command_served[OF a l, of "''Runtime.evaluate''"
        "[(''expression'', dict_get cmd ''expression'' (JStr [])), (''returnByValue'', JBool True)]"]
    obtain st' d where
      "send_command env st ''Runtime.evaluate''
         (Some [(''expression'', dict_get cmd ''expression'' (JStr [])), (''returnByValue'', JBool True)])
         = (st', Inr (JObj d))"
      "error_only d"
      "served error_only st
         [(''Runtime.evaluate'',
           [(''expression'', dict_get cmd ''expression'' (JStr [])), (''returnByValue'', JBool True)])] st'"
      by blast
    then show ?thesis
      unfolding 5
      by (simp add: run_action_def evaluate_def calls_of_def result_on_errors_def 5
          error_only_reads dict_get_nil)
  next
    case 6
    from send_command_served[OF a l, of "''Runtime.evaluate''"
        "[(''expression'', JStr ''window.location.href''), (''returnByValue'', JBool True)]"]
    obtain st' d where
      "send_command env st ''Runtime.evaluate''
         (Some [(''expression'', JStr ''window.location.href''), (''returnByValue'', JBool True)])
         = (st', Inr (JObj d))"
      "error_only d"
      "served error_only st
         [(''Runtime.evaluate'',
           [(''expression'', JStr ''window.location.href''), (''returnByValue'', JBool True)])] st'"
      by blast
    then show ?thesis
      unfolding 6
      by (simp add: run_action_def evaluate_def calls_of_def result_on_errors_def 6
          error_only_reads dict_get_nil)
  qed
qed

lemma succeeded_on_errors: "succeeded cmd (result_on_errors cmd)"
  by (simp add: succeeded_def result_on_errors_def Let_def)

text \<open>
  Claim C9. Let the browser answer every call with a frame \<^verbatim>\<open>{id, error}\<close> (an error
  payload and no result) and let the connection be open. Then \<^verbatim>\<open>send_command\<close> writes
  its frame, the read loop sets the call's future to the error frame and deletes the
  entry, and the call returns that frame as an ordinary result. For every recognized
  action (for \<^verbatim>\<open>type\<close>, with a text that can be iterated) \<^verbatim>\<open>process_command\<close> makes
  exactly the calls of the action, in order, each resolved by the error frame with its
  id, raises nothing, and then publishes one result on the reply channel, with
  \<^verbatim>\<open>success\<close> true and no \<^verbatim>\<open>error\<close>: the same result as for an empty
  \<^verbatim>\<open>{id, result}\<close> response.
\<close>

theorem error_response_is_success:
  assumes "answers error_only env" and "live st"
    and "dict_get cmd ''action'' JNull \<in> set recognized"
    and "dict_get cmd ''action'' JNull = JStr ''type'' \<longrightarrow>
           (\<exists>chars. py_iter (dict_get cmd ''text'' (JStr [])) = Inr chars)"
  shows "(\<exists>d. send_command env st method (Some params) =
              (st\<lparr> message_id := message_id st + 1,
                   futures := futures st @ [FDone (JObj d)],
                   pending_commands := (pending_commands st)(message_id st + 1 := None),
                   ws_sent := ws_sent st @ [frame (message_id st + 1) method params] \<rparr>,
               Inr (JObj d)) \<and>
            error_only d \<and> map_of d ''id'' = Some (JInt (message_id st + 1)))
       \<and> (\<exists>st' ds.
            process_command env st (JObj cmd) =
              (publish st' (reply_channel cmd) (JObj (result_on_errors cmd)), None) \<and>
            length ds = length (calls_of cmd) \<and>
            (\<forall>i < length ds. error_only (ds ! i) \<and>
                map_of (ds ! i) ''id'' = Some (JInt (message_id st + int i + 1))) \<and>
            st' = st\<lparr> message_id := message_id st + int (length (calls_of cmd)),
                       futures := futures st @ map (\<lambda>d. FDone (JObj d)) ds,
                       pending_commands :=
                         (\<lambda>k. if message_id st < k \<and>
                                  k \<le> message_id st + int (length (calls_of cmd))
                              then None else pending_commands st k),
                       ws_sent := ws_sent st @ frames_from (message_id st) (calls_of cmd) \<rparr>)
       \<and> succeeded cmd (result_on_errors cmd)"
proof -
  have "map_of [(''id'', JInt (message_id st + 1)), (''method'', JStr method),
                (''params'', JObj params)] ''id'' = Some (JInt (message_id st + 1))"
    by simp
  with assms(1) obtain now d where
    e: "env (frame (message_id st + 1) method params) = [(now, Frame (JObj d))]"
    and i: "map_of d ''id'' = Some (JInt (message_id st + 1))" and pd: "error_only d"
    unfolding answers_def frame_def by blast
  from send_command_answered[of st env "method" "params" now d, OF assms(2) e i] pd i
  have 1: "\<exists>d. send_command env st method (Some params) =
              (st\<lparr> message_id := message_id st + 1,
                   futures := futures st @ [FDone (JObj d)],
                   pending_commands := (pending_commands st)(message_id st + 1 := None),
                   ws_sent := ws_sent st @ [frame (message_id st + 1) method params] \<rparr>,
               Inr (JObj d)) \<and>
            error_only d \<and> map_of d ''id'' = Some (JInt (message_id st + 1))"
    by blast
  from run_action_on_errors[OF assms] obtain st' where
    ra: "run_action env st cmd (dict_get cmd ''action'' JNull)
           [(''session_id'', dict_get cmd ''session_id'' JNull), (''success'', JBool False)]
         = (st', Inr (result_on_errors cmd))"
    and sv: "served error_only st (calls_of cmd) st'"
    by blast
  from process_command_ok[OF ra] sv
  have 2: "\<exists>st' ds.
            process_command env st (JObj cmd) =
              (publish st' (reply_channel cmd) (JObj (result_on_errors cmd)), None) \<and>
            length ds = length (calls_of cmd) \<and>
            (\<forall>i < length ds. error_only (ds ! i) \<and>
                map_of (ds ! i) ''id'' = Some (JInt (message_id st + int i + 1))) \<and>
            st' = st\<lparr> message_id := message_id st + int (length (calls_of cmd)),
                       futures := futures st @ map (\<lambda>d. FDone (JObj d)) ds,
                       pending_commands :=
                         (\<lambda>k. if message_id st < k \<and>
                                  k \<le> message_id st + int (length (calls_of cmd))
                              then None else pending_commands st k),
                       ws_sent := ws_sent st @ frames_from (message_id st) (calls_of cmd) \<rparr>"
    unfolding served_def by blast
  from 1 2 succeeded_on_errors show ?thesis by blast
qed

lemma example_type_eval:
  "process_command error_browser connected (JObj example_type) =
     (connected\<lparr> message_id := 4,
        futures := [FDone (JObj [(''id'', JInt 1), (''error'', example_error)]),
                    FDone (JObj [(''id'', JInt 2), (''error'', example_error)]),
                    FDone (JObj [(''id'', JInt 3), (''error'', example_error)]),
                    FDone (JObj [(''id'', JInt 4), (''error'', example_error)])],
        ws_sent := [frame 1 ''Input.dispatchKeyEvent'' (key_event ''keyDown'' (JStr ''h'')),
                    frame 2 ''Input.dispatchKeyEvent'' (key_event ''keyUp'' (JStr ''h'')),
                    frame 3 ''Input.dispatchKeyEvent'' (key_event ''keyDown'' (JStr ''i'')),
                    frame 4 ''Input.dispatchKeyEvent'' (key_event ''keyUp'' (JStr ''i''))],
        redis_published := [(Fmt ''browser:result:'' (JStr ''s2''),
                             JObj [(''session_id'', JStr ''s2''), (''success'', JBool True)])] \<rparr>,
      None)"
  by (simp add: process_command_def example_type_def dict_get_def run_action_def
      type_text_def send_command_def register_def ws_send_def connected_def init_def
      example_socket_def Let_def error_browser_def reply_id_def handle_message_def on_message_def
      dict_has_def set_result_def resume_def publish_def frame_def example_error_def)

theorem error_response_is_success_witness:
  "answers error_only error_browser \<and> live connected
   \<and> calls_of example_type =
        [(''Input.dispatchKeyEvent'', key_event ''keyDown'' (JStr ''h'')),
         (''Input.dispatchKeyEvent'', key_event ''keyUp'' (JStr ''h'')),
         (''Input.dispatchKeyEvent'', key_event ''keyDown'' (JStr ''i'')),
         (''Input.dispatchKeyEvent'', key_event ''keyUp'' (JStr ''i''))]
   \<and> process_command error_browser connected (JObj example_type) =
     (connected\<lparr> message_id := 4,
        futures := [FDone (JObj [(''id'', JInt 1), (''error'', example_error)]),
                    FDone (JObj [(''id'', JInt 2), (''error'', example_error)]),
                    FDone (JObj [(''id'', JInt 3), (''error'', example_error)]),
                    FDone (JObj [(''id'', JInt 4), (''error'', example_error)])],
        ws_sent := [frame 1 ''Input.dispatchKeyEvent'' (key_event ''keyDown'' (JStr ''h'')),
                    frame 2 ''Input.dispatchKeyEvent'' (key_event ''keyUp'' (JStr ''h'')),
                    frame 3 ''Input.dispatchKeyEvent'' (key_event ''keyDown'' (JStr ''i'')),
                    frame 4 ''Input.dispatchKeyEvent'' (key_event ''keyUp'' (JStr ''i''))],
        redis_published := [(Fmt ''browser:result:'' (JStr ''s2''),
                             JObj [(''session_id'', JStr ''s2''), (''success'', JBool True)])] \<rparr>,
      None)
   \<and> redis_published (fst (process_command error_browser connected (JObj example_navigate))) =
       [(Fmt ''browser:result:'' (JStr ''s1''),
         JObj [(''session_id'', JStr ''s1''), (''success'', JBool True)])]
   \<and> ws_sent (fst (process_command error_browser connected (JObj example_navigate))) =
       [frame 1 ''Page.navigate'' [(''url'', JStr ''nowhere'')]]
   \<and> futures (fst (process_command error_browser connected (JObj example_navigate))) =
       [FDone (JObj [(''id'', JInt 1), (''error'', example_error)])]"
  using error_response_is_success[OF error_browser_answers connected_live,
      of example_type "''Page.navigate''" "[]"]
  by (simp add: error_browser_answers connected_live example_navigate_eval example_type_eval
      example_error_def)
     (simp add: calls_of_def example_type_def dict_get_def key_calls_def)

lemma send_command_unanswered:
  assumes l: "live st" and e: "env (frame (message_id st + 1) m p) = []"
  shows "send_command env st m (Some p) =
           (timed_out st m p, Inl (Exception (''Command '' @ m @ '' timed out'')))"
proof -
  from live_cases[OF l] obtain ws where ws: "ws_connection st = Some ws" "ws_closed ws = None"
    by blast
  let ?mid = "message_id st + 1"
  let ?c = "\<lparr> call_id = ?mid, call_method = m, call_future = length (futures st) \<rparr>"
  let ?st1 = "st\<lparr> message_id := ?mid, futures := futures st @ [FPending],
                  pending_commands := (pending_commands st)(?mid \<mapsto> length (futures st)) \<rparr>"
  let ?st2 = "?st1\<lparr> ws_sent := ws_sent st @ [frame ?mid m p] \<rparr>"
  have reg: "register st m (Some p) = Inr (?st1, ?c, frame ?mid m p)"
    using ws by (simp add: register_def frame_def Let_def)
  have snd: "ws_send ?st1 (frame ?mid m p) = Inr ?st2"
    using ws by (simp add: ws_send_def)
  have rs: "resume ?st2 ?c = (timed_out st m p, Inl (Exception (''Command '' @ m @ '' timed out'')))"
    by (simp add: resume_def Let_def timed_out_def)
  show ?thesis
    unfolding send_command_def reg using snd e rs by simp
qed

lemma process_command_failed:
  assumes "run_action env st cmd (dict_get cmd ''action'' JNull)
             [(''session_id'', dict_get cmd ''session_id'' JNull), (''success'', JBool False)]
           = (st', Inl (Exception msg))"
  shows "process_command env st (JObj cmd) =
           (publish st' (reply_channel cmd)
              (JObj [(''session_id'', dict_get cmd ''session_id'' JNull), (''success'', JBool False),
                     (''error'', JStr msg)]), None)"
  using assms by (simp add: process_command_def reply_channel_def Let_def)

lemma first_call_unanswered:
  assumes l: "live st"
    and r: "dict_get cmd ''action'' JNull \<in> set recognized"
    and c: "calls_of cmd = (m, p) # rest"
    and e: "env (frame (message_id st + 1) m p) = []"
  shows "process_command env st (JObj cmd) =
           (publish (timed_out st m p) (reply_channel cmd) (timeout_result cmd m), None)"
proof -
  note su = send_command_unanswered[of st env m p, OF l e]
  have "run_action env st cmd (dict_get cmd ''action'' JNull)
             [(''session_id'', dict_get cmd ''session_id'' JNull), (''success'', JBool False)]
           = (timed_out st m p, Inl (Exception (''Command '' @ m @ '' timed out'')))"
  proof -
    from recognized_cases[OF r] consider
      (1) "dict_get cmd ''action'' JNull = JStr ''navigate''"
      | (2) "dict_get cmd ''action'' JNull = JStr ''screenshot''"
      | (3) "dict_get cmd ''action'' JNull = JStr ''click''"
      | (4) "dict_get cmd ''action'' JNull = JStr ''type''"
      | (5) "dict_get cmd ''action'' JNull = JStr ''evaluate''"
      | (6) "dict_get cmd ''action'' JNull = JStr ''get_url''"
      by (elim disjE) (erule that)+
    then show ?thesis
    proof cases
      case 1
      with c have "m = ''Page.navigate''" "p = [(''url'', dict_get cmd ''url'' JNull)]"
        by (simp_all add: calls_of_def)
      with su show ?thesis unfolding 1 by (simp add: run_action_def navigate_def)
    next
      case 2
      with c have "m = ''Page.captureScreenshot''"
        "p = [(''format'', JStr ''png''), (''quality'', JInt 80)]"
        by (simp_all add: calls_of_def)
      with su show ?thesis unfolding 2 by (simp add: run_action_def screenshot_def)
    next
      case 3
      with c have "m = ''Input.dispatchMouseEvent''"
        "p = mouse_event ''mousePressed'' (dict_get cmd ''x'' (JInt 0)) (dict_get cmd ''y'' (JInt 0))"
        by (simp_all add: calls_of_def)
      with su show ?thesis unfolding 3 by (simp add: run_action_def click_def)
    next
      case 4
      with c obtain char chars where
        it: "py_iter (dict_get cmd ''text'' (JStr [])) = Inr (char # chars)"
        and mp: "m = ''Input.dispatchKeyEvent''" "p = key_event ''keyDown'' char"
        by (cases "py_iter (dict_get cmd ''text'' (JStr []))";
            cases "projr (py_iter (dict_get cmd ''text'' (JStr [])))")
           (auto simp: calls_of_def key_calls_def)
      with su show ?thesis unfolding 4 by (simp add: run_action_def type_text_def)
    next
      case 5
      with c have "m = ''Runtime.evaluate''"
        "p = [(''expression'', dict_get cmd ''expression'' (JStr [])), (''returnByValue'', JBool True)]"
        by (simp_all add: calls_of_def)
      with su show ?thesis unfolding 5 by (simp add: run_action_def evaluate_def)
    next
      case 6
      with c have "m = ''Runtime.evaluate''"
        "p = [(''expression'', JStr ''window.location.href''), (''returnByValue'', JBool True)]"
        by (simp_all add: calls_of_def)
      with su show ?thesis unfolding 6 by (simp add: run_action_def evaluate_def)
    qed
  qed
  from process_command_failed[OF this] show ?thesis by (simp add: timeout_result_def)
qed

lemma listen_append:
  "listen_for_commands env st (ms @ ms') =
     (case listen_for_commands env st ms of
        (st1, None) \<Rightarrow> listen_for_commands env st1 ms'
      | (st1, Some e) \<Rightarrow> (st1, Some e))"
proof (induction ms arbitrary: st)
  case Nil
  show ?case by simp
next
  case (Cons msg ms)
  obtain ty data where msg: "msg = PubSub ty data" by (cases msg)
  show ?case
    unfolding msg
    by (cases data; cases "process_command env st (projr data)")
       (auto simp: Cons.IH split: option.splits)
qed

lemma call_when_live:
  assumes "live (ctl s)"
  shows "act s (Call m p) =
     s\<lparr> ctl := (ctl s)\<lparr> message_id := message_id (ctl s) + 1,
                        futures := futures (ctl s) @ [FPending],
                        pending_commands := (pending_commands (ctl s))
                           (message_id (ctl s) + 1 \<mapsto> length (futures (ctl s))),
                        ws_sent := ws_sent (ctl s) @
                           [JObj [(''id'', JInt (message_id (ctl s) + 1)), (''method'', JStr m),
                                  (''params'', JObj (case p of None \<Rightarrow> [] | Some p \<Rightarrow> p))]] \<rparr>,
        issued := issued s @ [\<lparr> call_id = message_id (ctl s) + 1, call_method = m,
                                call_future = length (futures (ctl s)) \<rparr>],
        waiting := waiting s @ [\<lparr> call_id = message_id (ctl s) + 1, call_method = m,
                                  call_future = length (futures (ctl s)) \<rparr>] \<rparr>"
proof -
  from live_cases[OF assms] obtain ws where "ws_connection (ctl s) = Some ws" "ws_closed ws = None"
    by blast
  then show ?thesis by (simp add: register_def ws_send_def Let_def)
qed

lemma issued_calls_elem:
  "c \<in> set (issued_calls mid n cs) \<Longrightarrow>
     \<exists>i < length cs. call_id c = mid + int i + 1 \<and> call_future c = n + i"
proof (induction cs arbitrary: mid n)
  case Nil
  then show ?case by simp
next
  case (Cons x cs)
  obtain m p where x: "x = (m, p)" by (cases x)
  from Cons.prems consider "c = \<lparr> call_id = mid + 1, call_method = m, call_future = n \<rparr>"
    | "c \<in> set (issued_calls (mid + 1) (Suc n) cs)"
    unfolding x by auto
  then show ?case
  proof cases
    case 1
    then show ?thesis by auto
  next
    case 2
    from Cons.IH[OF 2] obtain i where "i < length cs" "call_id c = mid + 1 + int i + 1"
      "call_future c = Suc n + i" by blast
    then have "Suc i < length (x # cs) \<and> call_id c = mid + int (Suc i) + 1 \<and>
        call_future c = n + Suc i" by simp
    then show ?thesis by blast
  qed
qed

lemma calls_wait:
  "live (ctl s) \<Longrightarrow>
     live (ctl (foldl act s (call_actions cs))) \<and>
     waiting (foldl act s (call_actions cs)) =
       waiting s @ issued_calls (message_id (ctl s)) (length (futures (ctl s))) cs \<and>
     outcomes (foldl act s (call_actions cs)) = outcomes s \<and>
     futures (ctl (foldl act s (call_actions cs))) =
       futures (ctl s) @ replicate (length cs) FPending \<and>
     (\<forall>k. pending_commands (ctl (foldl act s (call_actions cs))) k =
        (if message_id (ctl s) < k \<and> k \<le> message_id (ctl s) + int (length cs)
         then Some (length (futures (ctl s)) + nat (k - message_id (ctl s) - 1))
         else pending_commands (ctl s) k))"
proof (induction cs arbitrary: s)
  case Nil
  then show ?case by (auto simp: call_actions_def)
next
  case (Cons x cs)
  obtain m p where x: "x = (m, p)" by (cases x)
  define s1 where "s1 = act s (Call m p)"
  note s1 = call_when_live[OF Cons.prems, of m p, folded s1_def]
  have l1: "live (ctl s1)" using Cons.prems unfolding s1 by (simp add: live_def)
  have f: "foldl act s (call_actions (x # cs)) = foldl act s1 (call_actions cs)"
    by (simp add: call_actions_def x s1_def)
  have m1: "message_id (ctl s1) = message_id (ctl s) + 1" unfolding s1 by simp
  have f1: "futures (ctl s1) = futures (ctl s) @ [FPending]" unfolding s1 by simp
  have w1: "waiting s1 = waiting s @ [\<lparr> call_id = message_id (ctl s) + 1, call_method = m,
                                  call_future = length (futures (ctl s)) \<rparr>]"
    unfolding s1 by simp
  have o1: "outcomes s1 = outcomes s" unfolding s1 by simp
  have p1: "pending_commands (ctl s1) = (pending_commands (ctl s))
                           (message_id (ctl s) + 1 \<mapsto> length (futures (ctl s)))"
    unfolding s1 by simp
  note ih = Cons.IH[OF l1]
  have a: "live (ctl (foldl act s (call_actions (x # cs))))" unfolding f using ih by blast
  have b: "waiting (foldl act s (call_actions (x # cs))) =
       waiting s @ issued_calls (message_id (ctl s)) (length (futures (ctl s))) (x # cs)"
    unfolding f using ih by (simp add: m1 f1 w1 x)
  have c: "outcomes (foldl act s (call_actions (x # cs))) = outcomes s"
    unfolding f using ih o1 by simp
  have d: "futures (ctl (foldl act s (call_actions (x # cs)))) =
       futures (ctl s) @ replicate (length (x # cs)) FPending"
    unfolding f using ih by (simp add: f1 replicate_app_Cons_same)
  have e: "pending_commands (ctl (foldl act s (call_actions (x # cs)))) k =
        (if message_id (ctl s) < k \<and> k \<le> message_id (ctl s) + int (length (x # cs))
         then Some (length (futures (ctl s)) + nat (k - message_id (ctl s) - 1))
         else pending_commands (ctl s) k)" for k
  proof -
    from ih have "pending_commands (ctl (foldl act s1 (call_actions cs))) k =
        (if message_id (ctl s1) < k \<and> k \<le> message_id (ctl s1) + int (length cs)
         then Some (length (futures (ctl s1)) + nat (k - message_id (ctl s1) - 1))
         else pending_commands (ctl s1) k)" by blast
    then show ?thesis
      unfolding f m1 f1 p1 by (auto simp: nat_diff_distrib nat_add_distrib)
  qed
  from a b c d e show ?case by blast
qed

text \<open>
  Claim C8, as amended. Any number of \<^verbatim>\<open>send_command\<close>s can be outstanding on one
  controller: calls made one after the other without any being resumed are all
  suspended together, with distinct ids, each with its own pending future and its own
  entry in the table, and an iteration of the read loop neither resumes nor ends a
  call. The dispatcher, however, takes the commands one at a time:
  \<^verbatim>\<open>listen_for_commands\<close> runs each command to its published result before it takes the
  next message, and a command whose first call gets no frame is published as timed
  out before any later command is started.
\<close>

theorem concurrent_calls_sequential_commands:
  assumes "s = run_session (new_session conn) acts" and "live (ctl s)"
    and "s' = run_session s (call_actions cs)"
    and "live st" and "dict_get cmd ''action'' JNull \<in> set recognized"
    and "calls_of cmd = (m, p) # rest"
    and "env (frame (message_id st + 1) m p) = []"
  shows "waiting s' = waiting s @ issued_calls (message_id (ctl s)) (length (futures (ctl s))) cs
       \<and> outcomes s' = outcomes s
       \<and> distinct (map call_id (waiting s'))
       \<and> (\<forall>c \<in> set (issued_calls (message_id (ctl s)) (length (futures (ctl s))) cs).
             pending_commands (ctl s') (call_id c) = Some (call_future c) \<and>
             futures (ctl s') ! call_future c = FPending)
       \<and> waiting (act s' (Arrive now r)) = waiting s'
       \<and> outcomes (act s' (Arrive now r)) = outcomes s'
       \<and> listen_for_commands env' st' (ms @ ms') =
            (case listen_for_commands env' st' ms of
               (st1, None) \<Rightarrow> listen_for_commands env' st1 ms'
             | (st1, Some e) \<Rightarrow> (st1, Some e))
       \<and> listen_for_commands env st (PubSub ''message'' (Inr (JObj cmd)) # ms) =
            listen_for_commands env
              (publish (timed_out st m p) (reply_channel cmd) (timeout_result cmd m)) ms"
proof -
  note cw = calls_wait[OF assms(2), of cs, folded run_session_def, folded assms(3)]
  have ok: "session_ok s'"
  proof -
    have "s' = run_session (new_session conn) (acts @ call_actions cs)"
      using assms(1,3) by (simp add: run_session_def)
    then show ?thesis by (simp add: run_session_ok)
  qed
  have a: "waiting s' = waiting s @ issued_calls (message_id (ctl s)) (length (futures (ctl s))) cs"
    and b: "outcomes s' = outcomes s"
    using cw by blast+
  have c: "distinct (map call_id (waiting s'))"
  proof -
    from ok have d: "distinct (map call_future (waiting s'))"
      and i: "\<forall>c \<in> set (waiting s'). call_id c = int (call_future c) + 1"
      by (auto simp: session_ok_def waiting_ok_def issued_ok_def)
    have eq: "map call_id (waiting s') = map (\<lambda>c. int (call_future c) + 1) (waiting s')"
      by (rule map_cong[OF refl]) (simp add: i)
    from d have "distinct (map (\<lambda>c. int (call_future c) + 1) (waiting s'))"
      by (auto simp: distinct_map inj_on_def)
    then show ?thesis unfolding eq .
  qed
  have d: "pending_commands (ctl s') (call_id c) = Some (call_future c) \<and>
             futures (ctl s') ! call_future c = FPending"
    if "c \<in> set (issued_calls (message_id (ctl s)) (length (futures (ctl s))) cs)" for c
  proof -
    from issued_calls_elem[OF that] obtain i where i: "i < length cs"
      "call_id c = message_id (ctl s) + int i + 1" "call_future c = length (futures (ctl s)) + i"
      by blast
    from cw have "pending_commands (ctl s') (call_id c) =
        (if message_id (ctl s) < call_id c \<and> call_id c \<le> message_id (ctl s) + int (length cs)
         then Some (length (futures (ctl s)) + nat (call_id c - message_id (ctl s) - 1))
         else pending_commands (ctl s) (call_id c))" by blast
    with i have 1: "pending_commands (ctl s') (call_id c) = Some (call_future c)" by simp
    from cw have "futures (ctl s') = futures (ctl s) @ replicate (length cs) FPending" by blast
    with i have "futures (ctl s') ! call_future c = FPending" by (simp add: nth_append)
    with 1 show ?thesis by simp
  qed
  have e: "waiting (act s' (Arrive now r)) = waiting s' \<and>
           outcomes (act s' (Arrive now r)) = outcomes s'"
    by (cases "reading s'"; cases "handle_message now (ctl s') r") simp_all
  have f: "listen_for_commands env st (PubSub ''message'' (Inr (JObj cmd)) # ms) =
            listen_for_commands env
              (publish (timed_out st m p) (reply_channel cmd) (timeout_result cmd m)) ms"
    using first_call_unanswered[of st cmd m p rest env, OF assms(4,5,6,7)] by simp
  from a b c d e f listen_append[of env' st' ms ms'] show ?thesis by blast
qed

lemma example_commands_eval:
  "listen_for_commands delayed_browser connected example_commands =
     (connected\<lparr> message_id := 2,
        futures := [FCancelled, FDone (JObj [(''id'', JInt 2), (''result'', JObj [])])],
        ws_sent := [frame 1 ''Page.navigate'' [(''url'', JStr ''nowhere'')],
                    frame 2 ''Page.navigate'' [(''url'', JStr ''elsewhere'')]],
        redis_published :=
          [(Fmt ''browser:result:'' (JStr ''s1''),
            JObj [(''session_id'', JStr ''s1''), (''success'', JBool False),
                  (''error'', JStr ''Command Page.navigate timed out'')]),
           (Fmt ''browser:result:'' (JStr ''s2''),
            JObj [(''session_id'', JStr ''s2''), (''success'', JBool True)])] \<rparr>,
      None)"
  by (simp add: example_commands_def process_command_def example_navigate_def
      example_navigate2_def dict_get_def run_action_def
      navigate_def send_command_def register_def ws_send_def connected_def init_def
      example_socket_def Let_def delayed_browser_def reply_id_def handle_message_def on_message_def
      dict_has_def set_result_def resume_def publish_def frame_def)

text \<open>
  Claim C8 as stated fails: two navigate commands are received, and the browser
  answers call 1 only once call 2 has been sent. Had both calls been outstanding
  together, both would have been resolved. The second frame is written only after the
  first call has timed out, so the first command is published as failed and the
  response to call 1 arrives for an id that is gone.
\<close>

theorem head_of_line_counterexample:
  "delayed_browser (frame 2 ''Page.navigate'' [(''url'', JStr ''elsewhere'')]) =
       [(''t'', Frame (JObj [(''id'', JInt 1), (''result'', JObj [])])),
        (''t'', Frame (JObj [(''id'', JInt 2), (''result'', JObj [])]))]
   \<and> ws_sent (fst (listen_for_commands delayed_browser connected example_commands)) =
       [frame 1 ''Page.navigate'' [(''url'', JStr ''nowhere'')],
        frame 2 ''Page.navigate'' [(''url'', JStr ''elsewhere'')]]
   \<and> futures (fst (listen_for_commands delayed_browser connected example_commands)) =
       [FCancelled, FDone (JObj [(''id'', JInt 2), (''result'', JObj [])])]
   \<and> redis_published (fst (listen_for_commands delayed_browser connected example_commands)) =
       [(Fmt ''browser:result:'' (JStr ''s1''),
         JObj [(''session_id'', JStr ''s1''), (''success'', JBool False),
               (''error'', JStr ''Command Page.navigate timed out'')]),
        (Fmt ''browser:result:'' (JStr ''s2''),
         JObj [(''session_id'', JStr ''s2''), (''success'', JBool True)])]"
  by (simp add: example_commands_eval)
     (simp add: delayed_browser_def reply_id_def frame_def)

lemma example_session_live: "live (ctl example_session)"
  by (simp add: example_session_eval live_def example_socket_def)

lemma example_navigate_recognized: "dict_get example_navigate ''action'' JNull \<in> set recognized"
  by (simp add: example_navigate_def dict_get_def recognized_def)

lemma example_navigate_calls:
  "calls_of example_navigate = (''Page.navigate'', [(''url'', JStr ''nowhere'')]) # []"
  by (simp add: calls_of_def example_navigate_def dict_get_def)

lemma delayed_browser_first:
  "delayed_browser (frame (message_id connected + 1) ''Page.navigate'' [(''url'', JStr ''nowhere'')]) = []"
  by (simp add: delayed_browser_def reply_id_def frame_def connected_def init_def)

theorem concurrent_calls_sequential_commands_witness:
  "live (ctl example_session) \<and> live connected
   \<and> waiting (run_session example_session (call_actions [(''Runtime.enable'', None)])) =
       [\<lparr> call_id = 1, call_method = ''Page.enable'', call_future = 0 \<rparr>,
        \<lparr> call_id = 2, call_method = ''Network.enable'', call_future = 1 \<rparr>,
        \<lparr> call_id = 3, call_method = ''Runtime.enable'', call_future = 2 \<rparr>]
   \<and> pending_commands
        (ctl (run_session example_session (call_actions [(''Runtime.enable'', None)]))) 3 = Some 2
   \<and> listen_for_commands delayed_browser connected [PubSub ''message'' (Inr (JObj example_navigate))] =
       (connected\<lparr> message_id := 1, futures := [FCancelled],
          ws_sent := [frame 1 ''Page.navigate'' [(''url'', JStr ''nowhere'')]],
          redis_published :=
            [(Fmt ''browser:result:'' (JStr ''s1''),
              JObj [(''session_id'', JStr ''s1''), (''success'', JBool False),
                    (''error'', JStr ''Command Page.navigate timed out'')])] \<rparr>, None)"
  using concurrent_calls_sequential_commands[of example_session "Some example_socket"
      "[Call ''Page.enable'' None, Call ''Network.enable'' None]"
      "run_session example_session (call_actions [(''Runtime.enable'', None)])"
      "[(''Runtime.enable'', None)]" connected example_navigate "''Page.navigate''"
      "[(''url'', JStr ''nowhere'')]" "[]" delayed_browser "''t''" "Frame JNull"
      delayed_browser connected "[]" "[]",
      OF example_session_def example_session_live refl connected_live
        example_navigate_recognized example_navigate_calls delayed_browser_first]
  by (simp add: example_session_live connected_live)
     (simp add: example_session_eval timed_out_def publish_def reply_channel_def
        timeout_result_def example_navigate_def dict_get_def connected_def init_def fun_eq_iff)

end
